theory Spec2Isabelle
  imports Main
begin

section \<open>JavaScript values and string helpers\<close>

text \<open>
  A JavaScript string is a \<^typ>\<open>string\<close> (one \<^typ>\<open>char\<close> per code unit; the
  examples stay in ASCII). A value that may be \<^verbatim>\<open>undefined\<close> is a
  \<^typ>\<open>string option\<close>, with \<^term>\<open>None\<close> for \<^verbatim>\<open>undefined\<close>. A thrown
  \<^verbatim>\<open>Error\<close> is a value \<open>Err message\<close>, and a function that may throw
  returns \<open>error + 'a\<close>.
\<close>

datatype error = Err string

text \<open>Truthiness of a possibly undefined string: \<^verbatim>\<open>undefined\<close> and \<^verbatim>\<open>''\<close> are falsy.\<close>

fun truthy :: "string option \<Rightarrow> bool" where
  "truthy None = False"
| "truthy (Some s) = (s \<noteq> [])"

text \<open>\<^verbatim>\<open>s.startsWith(p)\<close>, \<^verbatim>\<open>s.endsWith(p)\<close> and \<^verbatim>\<open>s.includes(p)\<close>.\<close>

definition startsWith :: "string \<Rightarrow> string \<Rightarrow> bool" where
  "startsWith s p = (take (length p) s = p)"

definition endsWith :: "string \<Rightarrow> string \<Rightarrow> bool" where
  "endsWith s p = (length p \<le> length s \<and> drop (length s - length p) s = p)"

fun str_includes :: "string \<Rightarrow> string \<Rightarrow> bool" where
  "str_includes [] p = (p = [])"
| "str_includes (c # cs) p = (startsWith (c # cs) p \<or> str_includes cs p)"

section \<open>Node's \<^verbatim>\<open>path\<close> module (POSIX flavour)\<close>

text \<open>
  The scripts call \<^verbatim>\<open>path.join\<close>, \<^verbatim>\<open>path.dirname\<close>, \<^verbatim>\<open>path.basename\<close> and
  \<^verbatim>\<open>path.extname\<close>. These belong to the platform, not to the repository; they are
  modelled here after the POSIX implementation of Node, on strings, so that the paths the
  scripts compute can be evaluated.
\<close>

text \<open>\<^verbatim>\<open>s.split('/')\<close>: the segments between slashes, empty ones included.\<close>

fun segments :: "string \<Rightarrow> string list" where
  "segments [] = [[]]"
| "segments (c # cs) =
     (if c = CHR ''/'' then [] # segments cs
      else (case segments cs of [] \<Rightarrow> [[c]] | s # ss \<Rightarrow> (c # s) # ss))"

text \<open>\<^verbatim>\<open>parts.join('/')\<close>.\<close>

fun join_slash :: "string list \<Rightarrow> string" where
  "join_slash [] = []"
| "join_slash [s] = s"
| "join_slash (s # t # ss) = s @ ''/'' @ join_slash (t # ss)"

text \<open>
  Node's \<^verbatim>\<open>normalizeString\<close>: empty and \<^verbatim>\<open>.\<close> segments are dropped, \<^verbatim>\<open>..\<close> removes
  the segment before it, and is kept only in a relative path that has nothing left to
  remove.
\<close>

fun normalize_segs :: "bool \<Rightarrow> string list \<Rightarrow> string list \<Rightarrow> string list" where
  "normalize_segs allowAboveRoot res [] = res"
| "normalize_segs allowAboveRoot res (s # ss) =
     (if s = [] \<or> s = ''.'' then normalize_segs allowAboveRoot res ss
      else if s = ''..'' then
        (if res \<noteq> [] \<and> last res \<noteq> ''..'' then normalize_segs allowAboveRoot (butlast res) ss
         else if allowAboveRoot then normalize_segs allowAboveRoot (res @ [''..'']) ss
         else normalize_segs allowAboveRoot res ss)
      else normalize_segs allowAboveRoot (res @ [s]) ss)"

definition path_normalize :: "string \<Rightarrow> string" where
  "path_normalize p =
     (if p = [] then ''.''
      else let isAbsolute = (hd p = CHR ''/'');
               trailingSeparator = (last p = CHR ''/'');
               body = join_slash (normalize_segs (\<not> isAbsolute) [] (segments p))
           in if body = [] then (if isAbsolute then ''/'' else if trailingSeparator then ''./'' else ''.'')
              else (if isAbsolute then ''/'' else []) @ body @ (if trailingSeparator then ''/'' else []))"

definition path_join :: "string list \<Rightarrow> string" where
  "path_join args =
     (let joined = filter (\<lambda>a. a \<noteq> []) args
      in if joined = [] then ''.'' else path_normalize (join_slash joined))"

text \<open>
  \<^verbatim>\<open>path.dirname\<close>: scanning from the end, but never the first character, skip trailing
  slashes and the last segment; the slash found there ends the directory name.
\<close>

definition path_dirname :: "string \<Rightarrow> string" where
  "path_dirname p =
     (if p = [] then ''.''
      else let hasRoot = (hd p = CHR ''/'');
               r = dropWhile (\<lambda>c. c \<noteq> CHR ''/'') (dropWhile (\<lambda>c. c = CHR ''/'') (rev (tl p)))
           in if r = [] then (if hasRoot then ''/'' else ''.'')
              else if hasRoot \<and> tl r = [] then ''//''
              else hd p # rev (tl r))"

text \<open>The last segment of a path, trailing slashes ignored (\<^verbatim>\<open>path.basename(p)\<close>).\<close>

definition path_base :: "string \<Rightarrow> string" where
  "path_base p = rev (takeWhile (\<lambda>c. c \<noteq> CHR ''/'') (dropWhile (\<lambda>c. c = CHR ''/'') (rev p)))"

text \<open>
  \<^verbatim>\<open>path.extname\<close>: from the last dot of the last segment, unless there is no dot, the
  dot is the first character of the segment, or the segment is \<^verbatim>\<open>..\<close>.
\<close>

definition path_extname :: "string \<Rightarrow> string" where
  "path_extname p =
     (let b = path_base p;
          ext = takeWhile (\<lambda>c. c \<noteq> CHR ''.'') (rev b);
          upto_dot = dropWhile (\<lambda>c. c \<noteq> CHR ''.'') (rev b)
      in if upto_dot = [] \<or> tl upto_dot = [] \<or> b = ''..'' then [] else CHR ''.'' # rev ext)"

text \<open>\<^verbatim>\<open>path.basename(p, suffix)\<close>: the suffix is removed when it ends the last segment
  without being all of it.\<close>

definition path_basename :: "string \<Rightarrow> string \<Rightarrow> string" where
  "path_basename p suffix =
     (if suffix \<noteq> [] \<and> length suffix \<le> length p then
        (if suffix = p then []
         else let b = path_base p
              in if endsWith b suffix \<and> b \<noteq> suffix then take (length b - length suffix) b else b)
      else path_base p)"

section \<open>The file system\<close>

text \<open>
  The file system is a tree: a location is the list of segments from the root, and holds a
  regular file with its text or a directory. The root is always a directory. A path string
  is resolved against a directory, for the calls below the working directory of the process. Files are written and read as
  UTF-8 text, so a file holds the string that was written. The calls throw for the
  structural reasons of POSIX: a directory where a file is expected, a file where a
  directory is expected, a missing parent.
\<close>

datatype node = File string | Dir

type_synonym fs = "string list \<Rightarrow> node option"

datatype event = StatusUpdate string string | CheckError nat string | Sleep nat

text \<open>
  The world the scripts run in: the clock (\<^verbatim>\<open>Date.now()\<close>, in milliseconds), the number
  of \<^verbatim>\<open>getChat\<close> calls made so far, \<^verbatim>\<open>process.cwd()\<close>, the file system, and the trace
  of status reports, error reports and timer waits, in the order they happened.
\<close>

record world =
  now :: nat
  calls :: nat
  cwd :: string
  fs :: fs
  trace :: "event list"

definition node_at :: "fs \<Rightarrow> string list \<Rightarrow> node option" where
  "node_at t k = (if k = [] then Some Dir else t k)"

definition resolve :: "string \<Rightarrow> string \<Rightarrow> string list" where
  "resolve dir p =
     normalize_segs False [] (segments (if startsWith p ''/'' then p else dir @ ''/'' @ p))"

definition existsSync :: "world \<Rightarrow> string \<Rightarrow> bool" where
  "existsSync w p =
     (case node_at (fs w) (resolve (cwd w) p) of
        None \<Rightarrow> False
      | Some Dir \<Rightarrow> True
      | Some (File c) \<Rightarrow> \<not> endsWith p ''/'')"

text \<open>The location itself and every location above it, the root excluded.\<close>

definition prefixes_of :: "string list \<Rightarrow> string list list" where
  "prefixes_of k = map (\<lambda>n. take n k) [1..<Suc (length k)]"

definition is_file :: "node option \<Rightarrow> bool" where
  "is_file n = (case n of Some (File c) \<Rightarrow> True | _ \<Rightarrow> False)"

text \<open>\<^verbatim>\<open>fs.mkdirSync(p, { recursive: true })\<close>.\<close>

definition mkdirSync :: "world \<Rightarrow> string \<Rightarrow> error + world" where
  "mkdirSync w p =
     (let k = resolve (cwd w) p
      in if is_file (node_at (fs w) k) then Inl (Err ''EEXIST'')
         else if list_ex (\<lambda>q. is_file (node_at (fs w) q)) (prefixes_of k) then Inl (Err ''ENOTDIR'')
         else Inr (w\<lparr>fs := (\<lambda>q. if q \<in> set (prefixes_of k) then Some Dir else fs w q)\<rparr>))"

text \<open>\<^verbatim>\<open>fs.writeFileSync(p, c, 'utf8')\<close>.\<close>

definition writeFileSync :: "world \<Rightarrow> string \<Rightarrow> string \<Rightarrow> error + world" where
  "writeFileSync w p c =
     (let k = resolve (cwd w) p
      in if endsWith p ''/'' \<or> node_at (fs w) k = Some Dir then Inl (Err ''EISDIR'')
         else (case node_at (fs w) (butlast k) of
                 None \<Rightarrow> Inl (Err ''ENOENT'')
               | Some (File parent) \<Rightarrow> Inl (Err ''ENOTDIR'')
               | Some Dir \<Rightarrow> Inr (w\<lparr>fs := (fs w)(k \<mapsto> File c)\<rparr>)))"

text \<open>\<^verbatim>\<open>fs.readFileSync(p, 'utf8')\<close>.\<close>

definition readFileSync :: "world \<Rightarrow> string \<Rightarrow> error + string" where
  "readFileSync w p =
     (case node_at (fs w) (resolve (cwd w) p) of
        None \<Rightarrow> Inl (Err ''ENOENT'')
      | Some Dir \<Rightarrow> Inl (Err ''EISDIR'')
      | Some (File c) \<Rightarrow> if endsWith p ''/'' then Inl (Err ''ENOTDIR'') else Inr c)"

text \<open>\<^verbatim>\<open>await new Promise(resolve => setTimeout(resolve, ms))\<close>.\<close>

definition sleep :: "nat \<Rightarrow> world \<Rightarrow> world" where
  "sleep ms w = w\<lparr>now := now w + ms, trace := trace w @ [Sleep ms]\<rparr>"

section \<open>The remote service\<close>

text \<open>
  One entry of a file list of the remote service. The service uses two shapes:
  \<^verbatim>\<open>{name, content}\<close> in \<^verbatim>\<open>latestVersion.files\<close> and \<^verbatim>\<open>{meta: {file}, source}\<close> in
  \<^verbatim>\<open>chat.files\<close>; \<open>meta_file\<close> stands for \<^verbatim>\<open>file.meta?.file\<close>.
\<close>

record file_entry =
  name :: "string option"
  content :: "string option"
  meta_file :: "string option"
  source :: "string option"

text \<open>
  What the scripts read of a chat: \<^verbatim>\<open>chat.latestVersion?.status\<close>,
  \<^verbatim>\<open>chat.latestVersion?.files\<close> and \<^verbatim>\<open>chat.files\<close>.
\<close>

record chat =
  lv_status :: "string option"
  lv_files :: "file_entry list option"
  root_files :: "file_entry list option"

text \<open>
  The remote service is a script of answers: \<open>remote chatId k\<close> is the time the \<open>k\<close>-th
  \<^verbatim>\<open>getChat\<close> call of the process takes, in milliseconds, and what it returns or throws.
  \<^verbatim>\<open>getChat\<close> logs an error and throws it again.
\<close>

type_synonym remote = "string \<Rightarrow> nat \<Rightarrow> nat \<times> (error + chat)"

definition getChat :: "remote \<Rightarrow> string \<Rightarrow> world \<Rightarrow> (error + chat) \<times> world" where
  "getChat remote chatId w =
     (snd (remote chatId (calls w)),
      w\<lparr>now := now w + fst (remote chatId (calls w)), calls := calls w + 1\<rparr>)"

section \<open>Downloading the generated files\<close>

text \<open>The two \<^verbatim>\<open>if\<close>s that choose \<open>fileName\<close> and \<open>fileContent\<close> for an entry.\<close>

definition pick_fields :: "file_entry \<Rightarrow> string option \<times> string option" where
  "pick_fields file =
     (if truthy (name file) \<and> truthy (content file) then (name file, content file)
      else if truthy (meta_file file) \<and> truthy (source file) then (meta_file file, source file)
      else (None, None))"

text \<open>
  The body of \<^verbatim>\<open>files.forEach\<close>, for one entry: \<open>savedFiles\<close> and the world after it, or
  the error thrown and the world at that moment.
\<close>

definition save_file ::
  "string \<Rightarrow> file_entry \<Rightarrow> string list \<Rightarrow> world \<Rightarrow> (error + string list) \<times> world" where
  "save_file outputDir file savedFiles w =
     (let fileName = fst (pick_fields file); fileContent = snd (pick_fields file)
      in if truthy fileName \<and> truthy fileContent then
           (let filePath = path_join [outputDir, the fileName];
                fileDir = path_dirname filePath
            in case (if \<not> existsSync w fileDir then mkdirSync w fileDir else Inr w) of
                 Inl e \<Rightarrow> (Inl e, w)
               | Inr w1 \<Rightarrow>
                   (case writeFileSync w1 filePath (the fileContent) of
                      Inl e \<Rightarrow> (Inl e, w1)
                    | Inr w2 \<Rightarrow> (Inr (savedFiles @ [filePath]), w2)))
         else (Inr savedFiles, w))"

fun save_files ::
  "string \<Rightarrow> file_entry list \<Rightarrow> string list \<Rightarrow> world \<Rightarrow> (error + string list) \<times> world" where
  "save_files outputDir [] savedFiles w = (Inr savedFiles, w)"
| "save_files outputDir (file # files) savedFiles w =
     (case save_file outputDir file savedFiles w of
        (Inl e, w1) \<Rightarrow> (Inl e, w1)
      | (Inr savedFiles1, w1) \<Rightarrow> save_files outputDir files savedFiles1 w1)"

text \<open>The filter of \<^verbatim>\<open>createIndexFile\<close>.\<close>

definition is_component :: "string \<Rightarrow> bool" where
  "is_component file =
     (endsWith file ''.jsx'' \<or> endsWith file ''.tsx'' \<or>
      (endsWith file ''.js'' \<and> \<not> str_includes file ''index''))"

definition export_line :: "string \<Rightarrow> string" where
  "export_line filePath =
     (let fileName = path_basename filePath (path_extname filePath);
          relativePath = ''./'' @ fileName
      in ''export { default as '' @ fileName @ '' } from '' @ [CHR 0x27] @ relativePath
           @ [CHR 0x27] @ '';'')"

text \<open>\<^verbatim>\<open>lines.join('\n')\<close>.\<close>

fun join_lines :: "string list \<Rightarrow> string" where
  "join_lines [] = []"
| "join_lines [s] = s"
| "join_lines (s # t # ss) = s @ [CHR 0x0A] @ join_lines (t # ss)"

text \<open>
  \<^verbatim>\<open>createIndexFile\<close> catches whatever its body throws, so it returns the world only.
\<close>

definition createIndexFile :: "string \<Rightarrow> string list \<Rightarrow> world \<Rightarrow> world" where
  "createIndexFile outputDir savedFiles w =
     (let componentFiles = filter is_component savedFiles
      in if componentFiles = [] then w
         else let indexContent = join_lines (map export_line componentFiles);
                  indexPath = path_join [outputDir, ''index.js'']
              in case writeFileSync w indexPath (indexContent @ [CHR 0x0A]) of
                   Inl e \<Rightarrow> w
                 | Inr w1 \<Rightarrow> w1)"

text \<open>The choice between \<^verbatim>\<open>chat.latestVersion.files\<close> and \<^verbatim>\<open>chat.files\<close>.\<close>

definition chat_files :: "chat \<Rightarrow> file_entry list" where
  "chat_files c =
     (case lv_files c of
        Some (f # rest) \<Rightarrow> f # rest
      | _ \<Rightarrow> (case root_files c of Some (f # rest) \<Rightarrow> f # rest | _ \<Rightarrow> []))"

text \<open>
  \<^verbatim>\<open>downloadGeneratedCode\<close> up to the end of the write loop, shared by the two scripts:
  fetch the chat, return at once when it has no files, create the output directory, write
  the files.
\<close>

definition fetch_and_save ::
  "remote \<Rightarrow> string \<Rightarrow> string \<Rightarrow> world \<Rightarrow> (error + string list) \<times> world" where
  "fetch_and_save remote chatId outputDir w =
     (case getChat remote chatId w of
        (Inl e, w1) \<Rightarrow> (Inl e, w1)
      | (Inr c, w1) \<Rightarrow>
          if chat_files c = [] then (Inr [], w1)
          else (case (if \<not> existsSync w1 outputDir then mkdirSync w1 outputDir else Inr w1) of
                  Inl e \<Rightarrow> (Inl e, w1)
                | Inr w2 \<Rightarrow> save_files outputDir (chat_files c) [] w2))"

text \<open>\<^verbatim>\<open>downloadGeneratedCode\<close> of \<^verbatim>\<open>v0-chat-creator-sdk.js\<close>.\<close>

definition downloadGeneratedCode ::
  "remote \<Rightarrow> string \<Rightarrow> string \<Rightarrow> world \<Rightarrow> (error + string list) \<times> world" where
  "downloadGeneratedCode remote chatId outputDir w =
     (case fetch_and_save remote chatId outputDir w of
        (Inl e, w1) \<Rightarrow> (Inl e, w1)
      | (Inr savedFiles, w1) \<Rightarrow>
          if savedFiles \<noteq> [] then (Inr savedFiles, createIndexFile outputDir savedFiles w1)
          else (Inr savedFiles, w1))"

section \<open>The backend integration step\<close>

text \<open>
  \<^verbatim>\<open>backend-integration-config.js\<close>. The three template literals it writes to disk are
  taken as parameters: no property below depends on their text.
\<close>

record templates =
  envTemplate :: string
  middlewareContent :: string
  apiHelperContent :: string

definition is_ts :: "string \<Rightarrow> bool" where
  "is_ts filePath = (endsWith filePath ''.tsx'' \<or> endsWith filePath ''.ts'')"

text \<open>
  \<^verbatim>\<open>validateApiContracts\<close> and \<^verbatim>\<open>validateTypeScriptInterfaces\<close> read every TypeScript
  file of the list and only print warnings: what remains is the read, which may throw.
\<close>

fun read_each :: "string list \<Rightarrow> world \<Rightarrow> error + unit" where
  "read_each [] w = Inr ()"
| "read_each (filePath # rest) w =
     (if is_ts filePath then
        (case readFileSync w filePath of Inl e \<Rightarrow> Inl e | Inr c \<Rightarrow> read_each rest w)
      else read_each rest w)"

definition validateApiContracts :: "string list \<Rightarrow> world \<Rightarrow> error + unit" where
  "validateApiContracts downloadedFiles w = read_each downloadedFiles w"

definition validateTypeScriptInterfaces :: "string list \<Rightarrow> world \<Rightarrow> error + unit" where
  "validateTypeScriptInterfaces downloadedFiles w = read_each downloadedFiles w"

definition createEnvTemplate :: "templates \<Rightarrow> world \<Rightarrow> error + world" where
  "createEnvTemplate tpl w = writeFileSync w ''.env.template'' (envTemplate tpl)"

definition validateEnvironmentVariables :: "templates \<Rightarrow> world \<Rightarrow> error + world" where
  "validateEnvironmentVariables tpl w =
     (let envPath = path_join [cwd w, ''.env'']
      in if \<not> existsSync w envPath then createEnvTemplate tpl w
         else (case readFileSync w envPath of Inl e \<Rightarrow> Inl e | Inr envContent \<Rightarrow> Inr w))"

text \<open>
  The regular expression \<^verbatim>\<open>new RegExp(wrongPath, 'g')\<close> for a key of \<open>importFixes\<close>:
  the only metacharacter in the four keys is the dot, which matches any character but a
  line terminator.
\<close>

datatype atom = Lit char | AnyChar

definition regexp :: "string \<Rightarrow> atom list" where
  "regexp wrongPath = map (\<lambda>c. if c = CHR ''.'' then AnyChar else Lit c) wrongPath"

fun atom_matches :: "atom \<Rightarrow> char \<Rightarrow> bool" where
  "atom_matches (Lit a) c = (a = c)"
| "atom_matches AnyChar c = (c \<noteq> CHR 0x0A \<and> c \<noteq> CHR 0x0D)"

fun match_here :: "atom list \<Rightarrow> string \<Rightarrow> bool" where
  "match_here [] s = True"
| "match_here (a # as) [] = False"
| "match_here (a # as) (c # cs) = (atom_matches a c \<and> match_here as cs)"

text \<open>
  \<^verbatim>\<open>content.replace(re, correctPath)\<close> for a global expression without the empty match:
  from left to right, a match is replaced and the scan goes on after it. \<open>skip\<close> counts
  the characters of the last match still to pass.
\<close>

fun replace_from :: "atom list \<Rightarrow> string \<Rightarrow> nat \<Rightarrow> string \<Rightarrow> string" where
  "replace_from re correctPath skip [] = []"
| "replace_from re correctPath skip (c # cs) =
     (if 0 < skip then replace_from re correctPath (skip - 1) cs
      else if match_here re (c # cs) then correctPath @ replace_from re correctPath (length re - 1) cs
      else c # replace_from re correctPath 0 cs)"

definition replace_all :: "atom list \<Rightarrow> string \<Rightarrow> string \<Rightarrow> string" where
  "replace_all re correctPath s = replace_from re correctPath 0 s"

definition importFixes :: "(string \<times> string) list" where
  "importFixes =
     [(''from \"components/'', ''from \"@/components/''),
      (''from \"lib/'', ''from \"@/lib/''),
      (''from \"./ui/'', ''from \"@/components/ui/''),
      (''from \"../ui/'', ''from \"@/components/ui/'')]"

text \<open>The body of \<^verbatim>\<open>Object.entries(importFixes).forEach\<close> on \<open>content\<close> and \<open>modified\<close>.\<close>

definition apply_fix :: "string \<times> bool \<Rightarrow> string \<times> string \<Rightarrow> string \<times> bool" where
  "apply_fix cm fix =
     (if str_includes (fst cm) (fst fix) then (replace_all (regexp (fst fix)) (snd fix) (fst cm), True)
      else cm)"

definition fix_content :: "string \<Rightarrow> string \<times> bool" where
  "fix_content c = foldl apply_fix (c, False) importFixes"

text \<open>The body of the \<^verbatim>\<open>for\<close> loop of \<^verbatim>\<open>fixImportPaths\<close>, for one path.\<close>

definition fix_file :: "string \<Rightarrow> world \<Rightarrow> error + world" where
  "fix_file filePath w =
     (if is_ts filePath then
        (case readFileSync w filePath of
           Inl e \<Rightarrow> Inl e
         | Inr c \<Rightarrow>
             if snd (fix_content c) then writeFileSync w filePath (fst (fix_content c))
             else Inr w)
      else Inr w)"

fun fixImportPaths :: "string list \<Rightarrow> string \<Rightarrow> world \<Rightarrow> (error + unit) \<times> world" where
  "fixImportPaths [] outputDir w = (Inr (), w)"
| "fixImportPaths (filePath # rest) outputDir w =
     (case fix_file filePath w of
        Inl e \<Rightarrow> (Inl e, w)
      | Inr w1 \<Rightarrow> fixImportPaths rest outputDir w1)"

definition createMiddlewareFile :: "templates \<Rightarrow> world \<Rightarrow> error + world" where
  "createMiddlewareFile tpl w =
     writeFileSync w (path_join [cwd w, ''src'', ''middleware.ts'']) (middlewareContent tpl)"

definition ensureMiddlewareIntegration :: "templates \<Rightarrow> world \<Rightarrow> error + world" where
  "ensureMiddlewareIntegration tpl w =
     (let middlewarePath = path_join [cwd w, ''src'', ''middleware.ts'']
      in if \<not> existsSync w middlewarePath then createMiddlewareFile tpl w else Inr w)"

definition generateApiHelpers :: "templates \<Rightarrow> string \<Rightarrow> world \<Rightarrow> error + world" where
  "generateApiHelpers tpl outputDir w =
     (let helpersDir = path_join [outputDir, ''lib'', ''api'']
      in case (if \<not> existsSync w helpersDir then mkdirSync w helpersDir else Inr w) of
           Inl e \<Rightarrow> Inl e
         | Inr w1 \<Rightarrow> writeFileSync w1 (path_join [helpersDir, ''client.ts'']) (apiHelperContent tpl))"

text \<open>
  The \<^verbatim>\<open>try\<close> block of \<^verbatim>\<open>ensureBackendIntegration\<close>: six steps in sequence, the first
  one that throws ends the block.
\<close>

definition integration_steps ::
  "templates \<Rightarrow> string list \<Rightarrow> string \<Rightarrow> world \<Rightarrow> (error + unit) \<times> world" where
  "integration_steps tpl downloadedFiles outputDir w =
     (case validateApiContracts downloadedFiles w of
        Inl e \<Rightarrow> (Inl e, w)
      | Inr u1 \<Rightarrow>
     (case validateEnvironmentVariables tpl w of
        Inl e \<Rightarrow> (Inl e, w)
      | Inr w2 \<Rightarrow>
     (case fixImportPaths downloadedFiles outputDir w2 of
        (Inl e, w3) \<Rightarrow> (Inl e, w3)
      | (Inr u3, w3) \<Rightarrow>
     (case validateTypeScriptInterfaces downloadedFiles w3 of
        Inl e \<Rightarrow> (Inl e, w3)
      | Inr u4 \<Rightarrow>
     (case ensureMiddlewareIntegration tpl w3 of
        Inl e \<Rightarrow> (Inl e, w3)
      | Inr w5 \<Rightarrow>
     (case generateApiHelpers tpl outputDir w5 of
        Inl e \<Rightarrow> (Inl e, w5)
      | Inr w6 \<Rightarrow> (Inr (), w6)))))))"

text \<open>The \<^verbatim>\<open>catch\<close> of \<^verbatim>\<open>ensureBackendIntegration\<close> prints a warning and returns.\<close>

definition ensureBackendIntegration :: "templates \<Rightarrow> string list \<Rightarrow> string \<Rightarrow> world \<Rightarrow> world" where
  "ensureBackendIntegration tpl downloadedFiles outputDir w =
     snd (integration_steps tpl downloadedFiles outputDir w)"

text \<open>\<^verbatim>\<open>downloadGeneratedCode\<close> of \<^verbatim>\<open>v0-chat-creator-enforced.js\<close>.\<close>

definition downloadGeneratedCode_enforced ::
  "templates \<Rightarrow> remote \<Rightarrow> string \<Rightarrow> string \<Rightarrow> world \<Rightarrow> (error + string list) \<times> world" where
  "downloadGeneratedCode_enforced tpl remote chatId outputDir w =
     (case fetch_and_save remote chatId outputDir w of
        (Inl e, w1) \<Rightarrow> (Inl e, w1)
      | (Inr savedFiles, w1) \<Rightarrow>
          if savedFiles \<noteq> [] then
            (Inr savedFiles,
             ensureBackendIntegration tpl savedFiles outputDir (createIndexFile outputDir savedFiles w1))
          else (Inr savedFiles, w1))"

section \<open>Waiting for the generation: \<^verbatim>\<open>waitAndDownloadEnforced\<close>\<close>

text \<open>The two local variables of the wait that live across polls.\<close>

record poll_state =
  attempts :: nat
  lastStatus :: string

text \<open>How one pass through the \<^verbatim>\<open>while\<close> body ends: with a \<^verbatim>\<open>return\<close>, or at its end.\<close>

datatype step = Return "string list" | Next

text \<open>\<^verbatim>\<open>chat.latestVersion?.status || 'unknown'\<close>.\<close>

definition current_status :: "chat \<Rightarrow> string" where
  "current_status c = (if truthy (lv_status c) then the (lv_status c) else ''unknown'')"

text \<open>The statement \<^verbatim>\<open>if (currentStatus !== lastStatus) { ... }\<close>: report the change, keep it.\<close>

definition note_status :: "string \<Rightarrow> poll_state \<Rightarrow> world \<Rightarrow> poll_state \<times> world" where
  "note_status currentStatus ps w =
     (if currentStatus \<noteq> lastStatus ps
      then (ps\<lparr>lastStatus := currentStatus\<rparr>,
            w\<lparr>trace := trace w @ [StatusUpdate (lastStatus ps) currentStatus]\<rparr>)
      else (ps, w))"

text \<open>
  The rest of the \<^verbatim>\<open>try\<close> block, from \<^verbatim>\<open>if (currentStatus === 'completed')\<close> to the
  two-second wait at its end. \<open>Inl e\<close> is an error thrown inside the block; this
  includes the \<^verbatim>\<open>throw new Error('Generation failed and no files available')\<close> of the
  inner \<^verbatim>\<open>catch\<close>, which sits inside the block. The progress dots and lines it prints
  are left out.
\<close>

definition poll_branch ::
  "templates \<Rightarrow> remote \<Rightarrow> string \<Rightarrow> string \<Rightarrow> string \<Rightarrow> poll_state \<Rightarrow> world
     \<Rightarrow> (error + step) \<times> poll_state \<times> world" where
  "poll_branch tpl remote chatId outputDir currentStatus ps w =
     (if currentStatus = ''completed'' then
        (case downloadGeneratedCode_enforced tpl remote chatId outputDir w of
           (Inl e, w3) \<Rightarrow> (Inl e, ps, w3)
         | (Inr files, w3) \<Rightarrow>
             if files \<noteq> [] then (Inr (Return files), ps, w3)
             else (Inr Next, ps, sleep 2000 w3))
      else if currentStatus = ''failed'' then
        (case downloadGeneratedCode_enforced tpl remote chatId outputDir w of
           (Inl e, w3) \<Rightarrow> (Inl (Err ''Generation failed and no files available''), ps, w3)
         | (Inr files, w3) \<Rightarrow> (Inr (Return files), ps, w3))
      else (Inr Next, ps, sleep 2000 w))"

text \<open>
  The \<^verbatim>\<open>try\<close> block of the \<^verbatim>\<open>while\<close> body: count the attempt, fetch the chat,
  note its status, then act on it. \<open>Inl e\<close> is an error thrown inside the block.
\<close>

definition poll_try ::
  "templates \<Rightarrow> remote \<Rightarrow> string \<Rightarrow> string \<Rightarrow> poll_state \<Rightarrow> world
     \<Rightarrow> (error + step) \<times> poll_state \<times> world" where
  "poll_try tpl remote chatId outputDir ps w =
     (let ps1 = ps\<lparr>attempts := attempts ps + 1\<rparr>
      in case getChat remote chatId w of
           (Inl e, w1) \<Rightarrow> (Inl e, ps1, w1)
         | (Inr c, w1) \<Rightarrow>
             poll_branch tpl remote chatId outputDir (current_status c)
               (fst (note_status (current_status c) ps1 w1))
               (snd (note_status (current_status c) ps1 w1)))"

text \<open>The message of a thrown error.\<close>

fun message :: "error \<Rightarrow> string" where
  "message (Err m) = m"

text \<open>The \<^verbatim>\<open>catch\<close> block of the \<^verbatim>\<open>while\<close> body: report the error, wait, go on.\<close>

definition poll_catch :: "error \<Rightarrow> poll_state \<Rightarrow> world \<Rightarrow> world" where
  "poll_catch e ps w =
     sleep (if attempts ps mod 5 = 0 then 5000 else 3000)
       (w\<lparr>trace := trace w @ [CheckError (attempts ps) (message e)]\<rparr>)"

text \<open>One pass through the \<^verbatim>\<open>while\<close> body.\<close>

definition poll_iteration ::
  "templates \<Rightarrow> remote \<Rightarrow> string \<Rightarrow> string \<Rightarrow> poll_state \<Rightarrow> world
     \<Rightarrow> step \<times> poll_state \<times> world" where
  "poll_iteration tpl remote chatId outputDir ps w =
     (case poll_try tpl remote chatId outputDir ps w of
        (Inl e, ps1, w1) \<Rightarrow> (Next, ps1, poll_catch e ps1 w1)
      | (Inr st, ps1, w1) \<Rightarrow> (st, ps1, w1))"

text \<open>
  What the calls leave alone. The file-system calls change the file system only; a
  download makes one remote call and lets the clock advance by the time that call takes.
\<close>

definition only_fs_changed :: "world \<Rightarrow> world \<Rightarrow> bool" where
  "only_fs_changed w w1 =
     (now w1 = now w \<and> calls w1 = calls w \<and> cwd w1 = cwd w \<and> trace w1 = trace w)"

lemma only_fs_changed_refl: "only_fs_changed w w"
  by (simp add: only_fs_changed_def)

lemma only_fs_changed_trans:
  "only_fs_changed w w1 \<Longrightarrow> only_fs_changed w1 w2 \<Longrightarrow> only_fs_changed w w2"
  by (simp add: only_fs_changed_def)

lemma mkdirSync_only_fs: "mkdirSync w p = Inr w1 \<Longrightarrow> only_fs_changed w w1"
  by (auto simp: mkdirSync_def Let_def only_fs_changed_def split: if_splits)

lemma writeFileSync_only_fs: "writeFileSync w p c = Inr w1 \<Longrightarrow> only_fs_changed w w1"
  by (auto simp: writeFileSync_def Let_def only_fs_changed_def
      split: if_splits option.splits node.splits)

lemma ensure_dir_only_fs:
  "(if \<not> existsSync w d then mkdirSync w d else Inr w) = Inr w1 \<Longrightarrow> only_fs_changed w w1"
  by (auto simp: only_fs_changed_refl dest: mkdirSync_only_fs split: if_splits)

lemma save_file_only_fs: "only_fs_changed w (snd (save_file outputDir file savedFiles w))"
proof (cases "truthy (fst (pick_fields file)) \<and> truthy (snd (pick_fields file))")
  case False
  then show ?thesis by (auto simp: save_file_def Let_def only_fs_changed_refl)
next
  case True
  let ?p = "path_join [outputDir, the (fst (pick_fields file))]"
  let ?d = "path_dirname ?p"
  show ?thesis
  proof (cases "if \<not> existsSync w ?d then mkdirSync w ?d else Inr w")
    case (Inl e)
    with True show ?thesis by (simp add: save_file_def Let_def only_fs_changed_refl)
  next
    case (Inr w1)
    then have f1: "only_fs_changed w w1" by (rule ensure_dir_only_fs)
    show ?thesis
    proof (cases "writeFileSync w1 ?p (the (snd (pick_fields file)))")
      case (Inl e)
      with True Inr f1 show ?thesis by (simp add: save_file_def Let_def)
    next
      case w2: (Inr w2)
      then have "only_fs_changed w1 w2" by (rule writeFileSync_only_fs)
      with f1 have "only_fs_changed w w2" by (rule only_fs_changed_trans)
      with True Inr w2 show ?thesis by (simp add: save_file_def Let_def)
    qed
  qed
qed

lemma save_files_only_fs: "only_fs_changed w (snd (save_files outputDir files savedFiles w))"
proof (induction files arbitrary: savedFiles w)
  case Nil
  show ?case by (simp add: only_fs_changed_refl)
next
  case (Cons x xs)
  obtain r w1 where sf: "save_file outputDir x savedFiles w = (r, w1)"
    by (cases "save_file outputDir x savedFiles w")
  have f1: "only_fs_changed w w1"
    using save_file_only_fs [of w outputDir x savedFiles] sf by simp
  show ?case
  proof (cases r)
    case (Inl e)
    with sf f1 show ?thesis by simp
  next
    case (Inr savedFiles1)
    have "only_fs_changed w1 (snd (save_files outputDir xs savedFiles1 w1))"
      by (rule Cons.IH)
    with f1 have "only_fs_changed w (snd (save_files outputDir xs savedFiles1 w1))"
      by (rule only_fs_changed_trans)
    with sf Inr show ?thesis by simp
  qed
qed

lemma createIndexFile_only_fs: "only_fs_changed w (createIndexFile outputDir savedFiles w)"
  by (auto simp: createIndexFile_def Let_def only_fs_changed_refl
      dest: writeFileSync_only_fs split: sum.splits)

lemma fix_file_only_fs: "fix_file filePath w = Inr w1 \<Longrightarrow> only_fs_changed w w1"
  by (auto simp: fix_file_def only_fs_changed_refl dest: writeFileSync_only_fs
      split: if_splits sum.splits)

lemma fixImportPaths_only_fs: "only_fs_changed w (snd (fixImportPaths files outputDir w))"
proof (induction files arbitrary: w)
  case Nil
  show ?case by (simp add: only_fs_changed_refl)
next
  case (Cons filePath rest)
  show ?case
  proof (cases "fix_file filePath w")
    case (Inl e)
    then show ?thesis by (simp add: only_fs_changed_refl)
  next
    case (Inr w1)
    then have "only_fs_changed w w1" by (rule fix_file_only_fs)
    moreover have "only_fs_changed w1 (snd (fixImportPaths rest outputDir w1))" by (rule Cons.IH)
    ultimately have "only_fs_changed w (snd (fixImportPaths rest outputDir w1))"
      by (rule only_fs_changed_trans)
    with Inr show ?thesis by simp
  qed
qed

lemma validateEnvironmentVariables_only_fs:
  "validateEnvironmentVariables tpl w = Inr w1 \<Longrightarrow> only_fs_changed w w1"
  by (auto simp: validateEnvironmentVariables_def createEnvTemplate_def Let_def
      only_fs_changed_refl dest: writeFileSync_only_fs split: if_splits sum.splits)

lemma ensureMiddlewareIntegration_only_fs:
  "ensureMiddlewareIntegration tpl w = Inr w1 \<Longrightarrow> only_fs_changed w w1"
  by (auto simp: ensureMiddlewareIntegration_def createMiddlewareFile_def Let_def
      only_fs_changed_refl dest: writeFileSync_only_fs split: if_splits)

lemma generateApiHelpers_only_fs:
  "generateApiHelpers tpl outputDir w = Inr w1 \<Longrightarrow> only_fs_changed w w1"
proof -
  assume a: "generateApiHelpers tpl outputDir w = Inr w1"
  let ?d = "path_join [outputDir, ''lib'', ''api'']"
  show ?thesis
  proof (cases "if \<not> existsSync w ?d then mkdirSync w ?d else Inr w")
    case (Inl e)
    with a show ?thesis by (simp add: generateApiHelpers_def Let_def)
  next
    case (Inr w0)
    then have "only_fs_changed w w0" by (rule ensure_dir_only_fs)
    moreover from a Inr have "only_fs_changed w0 w1"
      by (auto simp: generateApiHelpers_def Let_def dest: writeFileSync_only_fs)
    ultimately show ?thesis by (rule only_fs_changed_trans)
  qed
qed

lemma integration_steps_only_fs:
  "only_fs_changed w (snd (integration_steps tpl files outputDir w))"
proof -
  have fip: "\<And>w2. only_fs_changed w2 (snd (fixImportPaths files outputDir w2))"
    by (rule fixImportPaths_only_fs)
  show ?thesis
    unfolding integration_steps_def
    by (auto simp: only_fs_changed_refl split: sum.splits prod.splits
        dest!: validateEnvironmentVariables_only_fs ensureMiddlewareIntegration_only_fs
          generateApiHelpers_only_fs
        intro: only_fs_changed_trans)
      (metis fip only_fs_changed_trans snd_conv)+
qed

lemma ensureBackendIntegration_only_fs:
  "only_fs_changed w (ensureBackendIntegration tpl files outputDir w)"
  by (simp add: ensureBackendIntegration_def integration_steps_only_fs)

definition one_call_made :: "world \<Rightarrow> world \<Rightarrow> bool" where
  "one_call_made w w1 =
     (now w \<le> now w1 \<and> calls w1 = calls w + 1 \<and> cwd w1 = cwd w \<and> trace w1 = trace w)"

lemma one_call_then_fs:
  "one_call_made w w1 \<Longrightarrow> only_fs_changed w1 w2 \<Longrightarrow> one_call_made w w2"
  by (simp add: one_call_made_def only_fs_changed_def)

lemma getChat_one_call: "one_call_made w (snd (getChat remote chatId w))"
  by (simp add: getChat_def one_call_made_def)

lemma fetch_and_save_one_call: "one_call_made w (snd (fetch_and_save remote chatId outputDir w))"
proof -
  obtain r w1 where g: "getChat remote chatId w = (r, w1)"
    by (cases "getChat remote chatId w")
  have c1: "one_call_made w w1" using getChat_one_call [of w remote chatId] g by simp
  show ?thesis
  proof (cases r)
    case (Inl e)
    with g c1 show ?thesis by (simp add: fetch_and_save_def)
  next
    case (Inr c)
    show ?thesis
    proof (cases "chat_files c = []")
      case True
      with g Inr c1 show ?thesis by (simp add: fetch_and_save_def)
    next
      case False
      show ?thesis
      proof (cases "if \<not> existsSync w1 outputDir then mkdirSync w1 outputDir else Inr w1")
        case (Inl e)
        with g \<open>r = Inr c\<close> False c1 show ?thesis by (simp add: fetch_and_save_def)
      next
        case w2: (Inr w2)
        then have "only_fs_changed w1 w2" by (rule ensure_dir_only_fs)
        moreover have "only_fs_changed w2 (snd (save_files outputDir (chat_files c) [] w2))"
          by (rule save_files_only_fs)
        ultimately have "only_fs_changed w1 (snd (save_files outputDir (chat_files c) [] w2))"
          by (rule only_fs_changed_trans)
        with c1 have "one_call_made w (snd (save_files outputDir (chat_files c) [] w2))"
          by (rule one_call_then_fs)
        with g \<open>r = Inr c\<close> False w2 show ?thesis by (simp add: fetch_and_save_def)
      qed
    qed
  qed
qed

lemma downloadGeneratedCode_one_call:
  "one_call_made w (snd (downloadGeneratedCode remote chatId outputDir w))"
proof -
  obtain r w1 where f: "fetch_and_save remote chatId outputDir w = (r, w1)"
    by (cases "fetch_and_save remote chatId outputDir w")
  have c1: "one_call_made w w1"
    using fetch_and_save_one_call [of w remote chatId outputDir] f by simp
  then have "one_call_made w (createIndexFile outputDir savedFiles w1)" for savedFiles
    using createIndexFile_only_fs by (rule one_call_then_fs)
  with f c1 show ?thesis
    by (cases r) (simp_all add: downloadGeneratedCode_def)
qed

lemma downloadGeneratedCode_enforced_one_call:
  "one_call_made w (snd (downloadGeneratedCode_enforced tpl remote chatId outputDir w))"
proof -
  obtain r w1 where f: "fetch_and_save remote chatId outputDir w = (r, w1)"
    by (cases "fetch_and_save remote chatId outputDir w")
  have c1: "one_call_made w w1"
    using fetch_and_save_one_call [of w remote chatId outputDir] f by simp
  have "one_call_made w
          (ensureBackendIntegration tpl savedFiles outputDir (createIndexFile outputDir savedFiles w1))"
    for savedFiles
    using c1 createIndexFile_only_fs ensureBackendIntegration_only_fs
    by (blast intro: one_call_then_fs)
  with f c1 show ?thesis
    by (cases r) (simp_all add: downloadGeneratedCode_enforced_def)
qed

lemma getChat_later: "getChat remote chatId w = (r, w1) \<Longrightarrow> now w \<le> now w1"
  using getChat_one_call [of w remote chatId] by (simp add: one_call_made_def)

lemma download_enforced_later:
  "downloadGeneratedCode_enforced tpl remote chatId outputDir w = (r, w1) \<Longrightarrow> now w \<le> now w1"
  using downloadGeneratedCode_enforced_one_call [of w tpl remote chatId outputDir]
  by (simp add: one_call_made_def)

lemma poll_try_later:
  assumes "poll_try tpl remote chatId outputDir ps w = (r, ps1, w1)"
  shows "now w \<le> now w1 \<and> (r = Inr Next \<longrightarrow> now w + 2000 \<le> now w1)"
  using assms unfolding poll_try_def poll_branch_def note_status_def Let_def
  by (auto simp: sleep_def split: prod.splits sum.splits if_splits
      dest!: getChat_later download_enforced_later)

lemma poll_iteration_Next_later:
  assumes "poll_iteration tpl remote chatId outputDir ps w = (Next, ps1, w1)"
  shows "now w + 2000 \<le> now w1"
proof -
  obtain r ps2 w2 where t: "poll_try tpl remote chatId outputDir ps w = (r, ps2, w2)"
    by (cases "poll_try tpl remote chatId outputDir ps w")
  from t have l: "now w \<le> now w2 \<and> (r = Inr Next \<longrightarrow> now w + 2000 \<le> now w2)"
    by (rule poll_try_later)
  show ?thesis
  proof (cases r)
    case (Inl e)
    with assms t l show ?thesis
      by (auto simp: poll_iteration_def poll_catch_def sleep_def)
  next
    case (Inr st)
    with assms t l show ?thesis
      by (auto simp: poll_iteration_def)
  qed
qed

text \<open>
  The \<^verbatim>\<open>while\<close> loop: \<open>Some files\<close> when a pass returned \<open>files\<close>, \<open>None\<close> when the
  condition \<^verbatim>\<open>Date.now() - startTime < maxWaitMs\<close> became false. Every pass that does not
  return waits at least two seconds, so the loop ends.
\<close>

function wait_loop ::
  "templates \<Rightarrow> remote \<Rightarrow> string \<Rightarrow> string \<Rightarrow> nat \<Rightarrow> nat \<Rightarrow> poll_state \<Rightarrow> world
     \<Rightarrow> string list option \<times> poll_state \<times> world" where
  "wait_loop tpl remote chatId outputDir startTime maxWaitMs ps w =
     (if int (now w) - int startTime < int maxWaitMs then
        (case poll_iteration tpl remote chatId outputDir ps w of
           (Return files, ps1, w1) \<Rightarrow> (Some files, ps1, w1)
         | (Next, ps1, w1) \<Rightarrow> wait_loop tpl remote chatId outputDir startTime maxWaitMs ps1 w1)
      else (None, ps, w))"
  by pat_completeness auto
termination
proof (relation "measure (\<lambda>(tpl, remote, chatId, outputDir, startTime, maxWaitMs, ps, w).
                    startTime + maxWaitMs - now w)")
  show "wf (measure (\<lambda>(tpl, remote, chatId, outputDir, startTime, maxWaitMs, ps, w).
                    startTime + maxWaitMs - now w))"
    by simp
next
  fix tpl remote chatId outputDir startTime maxWaitMs ps w x1 y ps1 w1
  assume c: "int (now w) - int startTime < int maxWaitMs"
    and p: "(x1, y) = poll_iteration tpl remote chatId outputDir ps w"
    and y: "(ps1, w1) = y" and x: "x1 = Next"
  from p y x have "poll_iteration tpl remote chatId outputDir ps w = (Next, ps1, w1)" by simp
  then have "now w + 2000 \<le> now w1" by (rule poll_iteration_Next_later)
  with c show "((tpl, remote, chatId, outputDir, startTime, maxWaitMs, ps1, w1),
                tpl, remote, chatId, outputDir, startTime, maxWaitMs, ps, w)
               \<in> measure (\<lambda>(tpl, remote, chatId, outputDir, startTime, maxWaitMs, ps, w).
                    startTime + maxWaitMs - now w)"
    by simp
qed

text \<open>
  The three final strategies: a download at once, one after 5 seconds, one after 15
  seconds. \<open>None\<close> is the strategy without a timer.
\<close>

definition strategies :: "nat option list" where
  "strategies = [None, Some 5000, Some 15000]"

definition run_strategy ::
  "templates \<Rightarrow> remote \<Rightarrow> string \<Rightarrow> string \<Rightarrow> nat option \<Rightarrow> world
     \<Rightarrow> (error + string list) \<times> world" where
  "run_strategy tpl remote chatId outputDir delay w =
     (case delay of
        None \<Rightarrow> downloadGeneratedCode_enforced tpl remote chatId outputDir w
      | Some ms \<Rightarrow> downloadGeneratedCode_enforced tpl remote chatId outputDir (sleep ms w))"

text \<open>The \<^verbatim>\<open>for\<close> loop over the strategies, from the strategies still to run.\<close>

fun final_attempts ::
  "templates \<Rightarrow> remote \<Rightarrow> string \<Rightarrow> string \<Rightarrow> nat option list \<Rightarrow> world \<Rightarrow> string list \<times> world"
  where
  "final_attempts tpl remote chatId outputDir [] w = ([], w)"
| "final_attempts tpl remote chatId outputDir (delay # rest) w =
     (case run_strategy tpl remote chatId outputDir delay w of
        (Inl e, w1) \<Rightarrow> final_attempts tpl remote chatId outputDir rest w1
      | (Inr files, w1) \<Rightarrow>
          if files \<noteq> [] then (files, w1)
          else final_attempts tpl remote chatId outputDir rest w1)"

definition waitAndDownloadEnforced ::
  "templates \<Rightarrow> remote \<Rightarrow> string \<Rightarrow> string \<Rightarrow> nat \<Rightarrow> world \<Rightarrow> string list \<times> world" where
  "waitAndDownloadEnforced tpl remote chatId outputDir maxWaitTime w =
     (let startTime = now w;
          maxWaitMs = maxWaitTime * 1000
      in case wait_loop tpl remote chatId outputDir startTime maxWaitMs
                \<lparr>attempts = 0, lastStatus = ''unknown''\<rparr> w of
           (Some files, ps1, w1) \<Rightarrow> (files, w1)
         | (None, ps1, w1) \<Rightarrow> final_attempts tpl remote chatId outputDir strategies w1)"

text \<open>
  The retry loop of \<^verbatim>\<open>createAndDownload\<close>, entered with \<open>savedFiles\<close> empty:
  \<^verbatim>\<open>for (let retry = 1; retry <= 5; retry++)\<close>, each pass waiting \<open>10000 + retry * 5000\<close>
  milliseconds before its download, and leaving the loop at the first download with files.
\<close>

function aggressive_retries ::
  "templates \<Rightarrow> remote \<Rightarrow> string \<Rightarrow> string \<Rightarrow> nat \<Rightarrow> world \<Rightarrow> string list \<times> world" where
  "aggressive_retries tpl remote chatId outputDir retry w =
     (if retry \<le> 5 then
        (case downloadGeneratedCode_enforced tpl remote chatId outputDir
                (sleep (10000 + retry * 5000) w) of
           (Inl e, w1) \<Rightarrow> aggressive_retries tpl remote chatId outputDir (retry + 1) w1
         | (Inr savedFiles, w1) \<Rightarrow>
             if savedFiles \<noteq> [] then (savedFiles, w1)
             else aggressive_retries tpl remote chatId outputDir (retry + 1) w1)
      else ([], w))"
  by pat_completeness auto
termination
  by (relation "measure (\<lambda>(tpl, remote, chatId, outputDir, retry, w). 6 - retry)") auto

declare wait_loop.simps [simp del] aggressive_retries.simps [simp del]

section \<open>Waiting for the generation in the SDK creator: \<^verbatim>\<open>waitAndDownload\<close>\<close>

text \<open>
  \<^verbatim>\<open>waitAndDownload\<close> of \<^verbatim>\<open>v0-chat-creator-sdk.js\<close> keeps one local variable across
  polls, \<^verbatim>\<open>attempts\<close>, here \<open>n\<close>. Its \<^verbatim>\<open>try\<close> block returns the download when the status is
  \<^verbatim>\<open>completed\<close>, throws \<^verbatim>\<open>new Error('Generation failed')\<close> when it is \<^verbatim>\<open>failed\<close>, and
  waits two seconds otherwise. \<open>Inl e\<close> is an error thrown inside the block.
\<close>

definition poll_try_sdk ::
  "remote \<Rightarrow> string \<Rightarrow> string \<Rightarrow> nat \<Rightarrow> world \<Rightarrow> (error + step) \<times> nat \<times> world" where
  "poll_try_sdk remote chatId outputDir n w =
     (case getChat remote chatId w of
        (Inl e, w1) \<Rightarrow> (Inl e, n + 1, w1)
      | (Inr c, w1) \<Rightarrow>
          if lv_status c = Some ''completed'' then
            (case downloadGeneratedCode remote chatId outputDir w1 of
               (Inl e, w2) \<Rightarrow> (Inl e, n + 1, w2)
             | (Inr files, w2) \<Rightarrow> (Inr (Return files), n + 1, w2))
          else if lv_status c = Some ''failed'' then
            (Inl (Err ''Generation failed''), n + 1, w1)
          else (Inr Next, n + 1, sleep 2000 w1))"

text \<open>
  The \<^verbatim>\<open>catch\<close> block of the \<^verbatim>\<open>while\<close> body: report the error, wait five seconds, go
  on. The report is recorded with the attempt count, which the line printed by this
  script does not show.
\<close>

definition poll_catch_sdk :: "error \<Rightarrow> nat \<Rightarrow> world \<Rightarrow> world" where
  "poll_catch_sdk e n w =
     sleep 5000 (w\<lparr>trace := trace w @ [CheckError n (message e)]\<rparr>)"

definition poll_iteration_sdk ::
  "remote \<Rightarrow> string \<Rightarrow> string \<Rightarrow> nat \<Rightarrow> world \<Rightarrow> step \<times> nat \<times> world" where
  "poll_iteration_sdk remote chatId outputDir n w =
     (case poll_try_sdk remote chatId outputDir n w of
        (Inl e, n1, w1) \<Rightarrow> (Next, n1, poll_catch_sdk e n1 w1)
      | (Inr st, n1, w1) \<Rightarrow> (st, n1, w1))"

lemma download_later:
  "downloadGeneratedCode remote chatId outputDir w = (r, w1) \<Longrightarrow> now w \<le> now w1"
  using downloadGeneratedCode_one_call [of w remote chatId outputDir]
  by (simp add: one_call_made_def)

lemma poll_try_sdk_later:
  assumes "poll_try_sdk remote chatId outputDir n w = (r, n1, w1)"
  shows "now w \<le> now w1 \<and> (r = Inr Next \<longrightarrow> now w + 2000 \<le> now w1)"
  using assms unfolding poll_try_sdk_def
  by (auto simp: sleep_def split: prod.splits sum.splits if_splits
      dest!: getChat_later download_later)

lemma poll_iteration_sdk_Next_later:
  assumes "poll_iteration_sdk remote chatId outputDir n w = (Next, n1, w1)"
  shows "now w + 2000 \<le> now w1"
proof -
  obtain r a2 w2 where t: "poll_try_sdk remote chatId outputDir n w = (r, a2, w2)"
    by (cases "poll_try_sdk remote chatId outputDir n w")
  from t have l: "now w \<le> now w2 \<and> (r = Inr Next \<longrightarrow> now w + 2000 \<le> now w2)"
    by (rule poll_try_sdk_later)
  show ?thesis
  proof (cases r)
    case (Inl e)
    with assms t l show ?thesis
      by (auto simp: poll_iteration_sdk_def poll_catch_sdk_def sleep_def)
  next
    case (Inr st)
    with assms t l show ?thesis
      by (auto simp: poll_iteration_sdk_def)
  qed
qed

text \<open>The \<^verbatim>\<open>while\<close> loop of \<^verbatim>\<open>waitAndDownload\<close>.\<close>

function wait_loop_sdk ::
  "remote \<Rightarrow> string \<Rightarrow> string \<Rightarrow> nat \<Rightarrow> nat \<Rightarrow> nat \<Rightarrow> world
     \<Rightarrow> string list option \<times> nat \<times> world" where
  "wait_loop_sdk remote chatId outputDir startTime maxWaitMs n w =
     (if int (now w) - int startTime < int maxWaitMs then
        (case poll_iteration_sdk remote chatId outputDir n w of
           (Return files, n1, w1) \<Rightarrow> (Some files, n1, w1)
         | (Next, n1, w1) \<Rightarrow>
             wait_loop_sdk remote chatId outputDir startTime maxWaitMs n1 w1)
      else (None, n, w))"
  by pat_completeness auto
termination
proof (relation "measure (\<lambda>(remote, chatId, outputDir, startTime, maxWaitMs, n, w).
                    startTime + maxWaitMs - now w)")
  show "wf (measure (\<lambda>(remote, chatId, outputDir, startTime, maxWaitMs, n, w).
                    startTime + maxWaitMs - now w))"
    by simp
next
  fix remote chatId outputDir startTime maxWaitMs n w x1 y n1 w1
  assume c: "int (now w) - int startTime < int maxWaitMs"
    and p: "(x1, y) = poll_iteration_sdk remote chatId outputDir n w"
    and y: "(n1, w1) = y" and x: "x1 = Next"
  from p y x have "poll_iteration_sdk remote chatId outputDir n w = (Next, n1, w1)"
    by simp
  then have "now w + 2000 \<le> now w1" by (rule poll_iteration_sdk_Next_later)
  with c show "((remote, chatId, outputDir, startTime, maxWaitMs, n1, w1),
                remote, chatId, outputDir, startTime, maxWaitMs, n, w)
               \<in> measure (\<lambda>(remote, chatId, outputDir, startTime, maxWaitMs, n, w).
                    startTime + maxWaitMs - now w)"
    by simp
qed

text \<open>
  After the loop, one more download; when it throws, the \<^verbatim>\<open>catch\<close> returns the empty
  list.
\<close>

definition waitAndDownload ::
  "remote \<Rightarrow> string \<Rightarrow> string \<Rightarrow> nat \<Rightarrow> world \<Rightarrow> string list \<times> world" where
  "waitAndDownload remote chatId outputDir maxWaitTime w =
     (let startTime = now w;
          maxWaitMs = maxWaitTime * 1000
      in case wait_loop_sdk remote chatId outputDir startTime maxWaitMs 0 w of
           (Some files, n1, w1) \<Rightarrow> (files, w1)
         | (None, n1, w1) \<Rightarrow>
             (case downloadGeneratedCode remote chatId outputDir w1 of
                (Inl e, w2) \<Rightarrow> ([], w2)
              | (Inr files, w2) \<Rightarrow> (files, w2)))"

declare wait_loop_sdk.simps [simp del]

section \<open>The command lines of the three creators\<close>

text \<open>
  The three scripts parse their arguments with the same loop; they differ in the options
  they know. The options object of the basic creator (\<^verbatim>\<open>v0-chat-creator.js\<close>) has six
  fields, that of the enforced creator adds \<^verbatim>\<open>outputDir\<close>, and that of the SDK creator
  adds \<^verbatim>\<open>autoDownload\<close> and \<^verbatim>\<open>forceDownload\<close> to these. The field \<^verbatim>\<open>help\<close> is
  called \<open>help_flag\<close> here.
\<close>

record basic_options =
  prompt :: "string option"
  system :: "string option"
  modelId :: "string option"
  thinking :: bool
  privacy :: "string option"
  help_flag :: bool

record options = basic_options +
  outputDir :: "string option"

record sdk_options = options +
  autoDownload :: bool
  forceDownload :: bool

definition default_basic_options :: basic_options where
  "default_basic_options =
     \<lparr>prompt = Some '''', system = Some '''', modelId = Some ''v0-1.5-md'', thinking = False,
      privacy = Some ''private'', help_flag = False\<rparr>"

definition default_options :: options where
  "default_options =
     \<lparr>prompt = Some '''', system = Some '''', modelId = Some ''v0-1.5-md'', thinking = False,
      privacy = Some ''private'', help_flag = False, outputDir = Some ''./src/components''\<rparr>"

definition default_sdk_options :: sdk_options where
  "default_sdk_options =
     \<lparr>prompt = Some '''', system = Some '''', modelId = Some ''v0-1.5-md'', thinking = False,
      privacy = Some ''private'', help_flag = False, outputDir = Some ''./src/components'',
      autoDownload = True, forceDownload = True\<rparr>"

text \<open>
  A flag that takes a value reads \<^verbatim>\<open>args[++i]\<close>, which is \<^verbatim>\<open>undefined\<close> when the flag
  is the last argument: the value read and the arguments left after it.
\<close>

fun next_arg :: "string list \<Rightarrow> string option \<times> string list" where
  "next_arg [] = (None, [])"
| "next_arg (v # rest) = (Some v, rest)"

lemma next_arg_length: "length (snd (next_arg rest)) \<le> length rest"
  by (cases rest) simp_all

subsection \<open>The enforced creator\<close>

text \<open>
  \<^verbatim>\<open>parseArgs\<close> of \<^verbatim>\<open>v0-chat-creator-enforced.js\<close>: one pass through the body of the
  \<^verbatim>\<open>for\<close> loop, the \<^verbatim>\<open>switch\<close> on \<open>arg\<close>, then the loop.
\<close>

definition parse_step :: "string \<Rightarrow> string list \<Rightarrow> options \<Rightarrow> string list \<times> options" where
  "parse_step arg rest opts =
     (if arg = ''--prompt'' \<or> arg = ''-p'' then
        (snd (next_arg rest), opts\<lparr>prompt := fst (next_arg rest)\<rparr>)
      else if arg = ''--system'' \<or> arg = ''-s'' then
        (snd (next_arg rest), opts\<lparr>system := fst (next_arg rest)\<rparr>)
      else if arg = ''--model'' \<or> arg = ''-m'' then
        (snd (next_arg rest), opts\<lparr>modelId := fst (next_arg rest)\<rparr>)
      else if arg = ''--thinking'' \<or> arg = ''-t'' then
        (rest, opts\<lparr>thinking := True\<rparr>)
      else if arg = ''--privacy'' then
        (snd (next_arg rest), opts\<lparr>privacy := fst (next_arg rest)\<rparr>)
      else if arg = ''--output'' \<or> arg = ''-o'' then
        (snd (next_arg rest), opts\<lparr>outputDir := fst (next_arg rest)\<rparr>)
      else if arg = ''--help'' \<or> arg = ''-h'' then
        (rest, opts\<lparr>help_flag := True\<rparr>)
      else if \<not> truthy (prompt opts) \<and> \<not> startsWith arg ''-'' then
        (rest, opts\<lparr>prompt := Some arg\<rparr>)
      else (rest, opts))"

lemma parse_step_length: "length (fst (parse_step arg rest opts)) \<le> length rest"
  unfolding parse_step_def using next_arg_length [of rest] by simp

function parse_loop :: "string list \<Rightarrow> options \<Rightarrow> options" where
  "parse_loop [] opts = opts"
| "parse_loop (arg # rest) opts =
     parse_loop (fst (parse_step arg rest opts)) (snd (parse_step arg rest opts))"
  by pat_completeness auto
termination
proof (relation "measure (\<lambda>(args, opts). length args)")
  show "wf (measure (\<lambda>(args, opts). length args))" by simp
next
  fix arg rest opts
  show "((fst (parse_step arg rest opts), snd (parse_step arg rest opts)), arg # rest, opts)
        \<in> measure (\<lambda>(args, opts). length args)"
    using parse_step_length [of arg rest opts]
    by (cases "parse_step arg rest opts") simp
qed

definition parseArgs :: "string list \<Rightarrow> options" where
  "parseArgs args = parse_loop args default_options"

definition validModels :: "string list" where
  "validModels = [''v0-1.5-sm'', ''v0-1.5-md'', ''v0-1.5-lg'', ''v0-gpt-5'']"

definition validPrivacy :: "string list" where
  "validPrivacy = [''private'', ''public'', ''team'', ''team-edit'', ''unlisted'']"

text \<open>\<^verbatim>\<open>list.includes(v)\<close> for a possibly undefined \<open>v\<close>.\<close>

fun list_includes :: "string list \<Rightarrow> string option \<Rightarrow> bool" where
  "list_includes xs None = False"
| "list_includes xs (Some v) = (v \<in> set xs)"

text \<open>
  How a \<^verbatim>\<open>require.main === module\<close> block ends. The process either exits with a status
  before any remote call, or reaches one of the calls that talk to the remote service:
  \<^verbatim>\<open>creator.createAndDownload(options.prompt, options)\<close> in the enforced creator,
  \<^verbatim>\<open>createDynamicChat(options)\<close> in the two others, and
  \<^verbatim>\<open>downloadFromChatId(chatId, outputDir)\<close> and \<^verbatim>\<open>listRecentChats()\<close> in the SDK
  creator.
\<close>

datatype 'o outcome =
  Exit nat
| CreateAndDownload 'o
| CreateDynamicChat 'o
| DownloadFromChatId string string
| ListRecentChats

text \<open>The entry block of \<^verbatim>\<open>v0-chat-creator-enforced.js\<close>.\<close>

definition main_entry :: "string option \<Rightarrow> string list \<Rightarrow> options outcome" where
  "main_entry api_key args =
     (if \<not> truthy api_key then Exit 1
      else let opts = parseArgs args in
        if help_flag opts then Exit 0
        else if \<not> truthy (prompt opts) then Exit 1
        else if \<not> list_includes validModels (modelId opts) then Exit 1
        else if \<not> list_includes validPrivacy (privacy opts) then Exit 1
        else CreateAndDownload opts)"

subsection \<open>The basic creator\<close>

text \<open>\<^verbatim>\<open>parseArgs\<close> of \<^verbatim>\<open>v0-chat-creator.js\<close>: there is no \<^verbatim>\<open>--output\<close>.\<close>

definition parse_step_basic ::
  "string \<Rightarrow> string list \<Rightarrow> basic_options \<Rightarrow> string list \<times> basic_options" where
  "parse_step_basic arg rest opts =
     (if arg = ''--prompt'' \<or> arg = ''-p'' then
        (snd (next_arg rest), opts\<lparr>prompt := fst (next_arg rest)\<rparr>)
      else if arg = ''--system'' \<or> arg = ''-s'' then
        (snd (next_arg rest), opts\<lparr>system := fst (next_arg rest)\<rparr>)
      else if arg = ''--model'' \<or> arg = ''-m'' then
        (snd (next_arg rest), opts\<lparr>modelId := fst (next_arg rest)\<rparr>)
      else if arg = ''--thinking'' \<or> arg = ''-t'' then
        (rest, opts\<lparr>thinking := True\<rparr>)
      else if arg = ''--privacy'' then
        (snd (next_arg rest), opts\<lparr>privacy := fst (next_arg rest)\<rparr>)
      else if arg = ''--help'' \<or> arg = ''-h'' then
        (rest, opts\<lparr>help_flag := True\<rparr>)
      else if \<not> truthy (prompt opts) \<and> \<not> startsWith arg ''-'' then
        (rest, opts\<lparr>prompt := Some arg\<rparr>)
      else (rest, opts))"

lemma parse_step_basic_length: "length (fst (parse_step_basic arg rest opts)) \<le> length rest"
  unfolding parse_step_basic_def using next_arg_length [of rest] by simp

function parse_loop_basic :: "string list \<Rightarrow> basic_options \<Rightarrow> basic_options" where
  "parse_loop_basic [] opts = opts"
| "parse_loop_basic (arg # rest) opts =
     parse_loop_basic (fst (parse_step_basic arg rest opts)) (snd (parse_step_basic arg rest opts))"
  by pat_completeness auto
termination
proof (relation "measure (\<lambda>(args, opts). length args)")
  show "wf (measure (\<lambda>(args, opts). length args))" by simp
next
  fix arg rest opts
  show "((fst (parse_step_basic arg rest opts), snd (parse_step_basic arg rest opts)),
         arg # rest, opts) \<in> measure (\<lambda>(args, opts). length args)"
    using parse_step_basic_length [of arg rest opts]
    by (cases "parse_step_basic arg rest opts") simp
qed

definition parseArgs_basic :: "string list \<Rightarrow> basic_options" where
  "parseArgs_basic args = parse_loop_basic args default_basic_options"

text \<open>The entry block of \<^verbatim>\<open>v0-chat-creator.js\<close>.\<close>

definition main_entry_basic :: "string option \<Rightarrow> string list \<Rightarrow> basic_options outcome" where
  "main_entry_basic api_key args =
     (if \<not> truthy api_key then Exit 1
      else let opts = parseArgs_basic args in
        if help_flag opts then Exit 0
        else if \<not> truthy (prompt opts) then Exit 1
        else if \<not> list_includes validModels (modelId opts) then Exit 1
        else if \<not> list_includes validPrivacy (privacy opts) then Exit 1
        else CreateDynamicChat opts)"

subsection \<open>The SDK creator\<close>

text \<open>
  \<^verbatim>\<open>parseArgs\<close> of \<^verbatim>\<open>v0-chat-creator-sdk.js\<close>: \<^verbatim>\<open>--no-download\<close> prints a warning and
  changes nothing, \<^verbatim>\<open>--download\<close> and \<^verbatim>\<open>--force\<close> set flags that are set already.
\<close>

definition parse_step_sdk ::
  "string \<Rightarrow> string list \<Rightarrow> sdk_options \<Rightarrow> string list \<times> sdk_options" where
  "parse_step_sdk arg rest opts =
     (if arg = ''--prompt'' \<or> arg = ''-p'' then
        (snd (next_arg rest), opts\<lparr>prompt := fst (next_arg rest)\<rparr>)
      else if arg = ''--system'' \<or> arg = ''-s'' then
        (snd (next_arg rest), opts\<lparr>system := fst (next_arg rest)\<rparr>)
      else if arg = ''--model'' \<or> arg = ''-m'' then
        (snd (next_arg rest), opts\<lparr>modelId := fst (next_arg rest)\<rparr>)
      else if arg = ''--thinking'' \<or> arg = ''-t'' then
        (rest, opts\<lparr>thinking := True\<rparr>)
      else if arg = ''--privacy'' then
        (snd (next_arg rest), opts\<lparr>privacy := fst (next_arg rest)\<rparr>)
      else if arg = ''--output'' \<or> arg = ''-o'' then
        (snd (next_arg rest), opts\<lparr>outputDir := fst (next_arg rest)\<rparr>)
      else if arg = ''--no-download'' then
        (rest, opts)
      else if arg = ''--download'' \<or> arg = ''-d'' then
        (rest, opts\<lparr>autoDownload := True, forceDownload := True\<rparr>)
      else if arg = ''--force'' \<or> arg = ''-f'' then
        (rest, opts\<lparr>forceDownload := True\<rparr>)
      else if arg = ''--help'' \<or> arg = ''-h'' then
        (rest, opts\<lparr>help_flag := True\<rparr>)
      else if \<not> truthy (prompt opts) \<and> \<not> startsWith arg ''-'' then
        (rest, opts\<lparr>prompt := Some arg\<rparr>)
      else (rest, opts))"

lemma parse_step_sdk_length: "length (fst (parse_step_sdk arg rest opts)) \<le> length rest"
  unfolding parse_step_sdk_def using next_arg_length [of rest] by simp

function parse_loop_sdk :: "string list \<Rightarrow> sdk_options \<Rightarrow> sdk_options" where
  "parse_loop_sdk [] opts = opts"
| "parse_loop_sdk (arg # rest) opts =
     parse_loop_sdk (fst (parse_step_sdk arg rest opts)) (snd (parse_step_sdk arg rest opts))"
  by pat_completeness auto
termination
proof (relation "measure (\<lambda>(args, opts). length args)")
  show "wf (measure (\<lambda>(args, opts). length args))" by simp
next
  fix arg rest opts
  show "((fst (parse_step_sdk arg rest opts), snd (parse_step_sdk arg rest opts)),
         arg # rest, opts) \<in> measure (\<lambda>(args, opts). length args)"
    using parse_step_sdk_length [of arg rest opts]
    by (cases "parse_step_sdk arg rest opts") simp
qed

definition parseArgs_sdk :: "string list \<Rightarrow> sdk_options" where
  "parseArgs_sdk args = parse_loop_sdk args default_sdk_options"

text \<open>\<^verbatim>\<open>args[i]\<close>, which is \<^verbatim>\<open>undefined\<close> past the end of the array.\<close>

definition arg_at :: "string list \<Rightarrow> nat \<Rightarrow> string option" where
  "arg_at args i = (if i < length args then Some (args ! i) else None)"

text \<open>
  The entry block of \<^verbatim>\<open>v0-chat-creator-sdk.js\<close>. The two special commands are looked
  for before the arguments are parsed.
\<close>

definition main_entry_sdk :: "string option \<Rightarrow> string list \<Rightarrow> sdk_options outcome" where
  "main_entry_sdk api_key args =
     (if \<not> truthy api_key then Exit 1
      else if arg_at args 0 = Some ''download'' \<and> truthy (arg_at args 1) then
        DownloadFromChatId (the (arg_at args 1))
          (if truthy (arg_at args 2) then the (arg_at args 2) else ''./src/components'')
      else if arg_at args 0 = Some ''list'' then ListRecentChats
      else let opts = parseArgs_sdk args in
        if help_flag opts then Exit 0
        else if \<not> truthy (prompt opts) then Exit 1
        else if \<not> list_includes validModels (modelId opts) then Exit 1
        else if \<not> list_includes validPrivacy (privacy opts) then Exit 1
        else CreateDynamicChat opts)"

text \<open>
  A help invocation is a command line on which the parser of the script finds
  \<^verbatim>\<open>--help\<close> or \<^verbatim>\<open>-h\<close>; \<open>special_command\<close> tells whether the SDK creator takes the
  command line for one of its two commands.
\<close>

definition special_command :: "string list \<Rightarrow> bool" where
  "special_command args =
     ((arg_at args 0 = Some ''download'' \<and> truthy (arg_at args 1)) \<or> arg_at args 0 = Some ''list'')"

section \<open>Notions of the specification and worked examples\<close>

definition example_world :: world where
  "example_world =
     \<lparr>now = 0, calls = 0, cwd = ''/w'',
      fs = (\<lambda>k. if k = [''w''] then Some Dir else None), trace = []\<rparr>"

definition entry :: "string \<Rightarrow> string \<Rightarrow> file_entry" where
  "entry n c = \<lparr>name = Some n, content = Some c, meta_file = None, source = None\<rparr>"

definition mixed_entry :: file_entry where
  "mixed_entry =
     \<lparr>name = Some ''a.txt'', content = Some [], meta_file = Some ''b.txt'', source = Some ''x''\<rparr>"

definition remote_mixed :: remote where
  "remote_mixed chatId k =
     (1, Inr \<lparr>lv_status = Some ''completed'', lv_files = Some [mixed_entry], root_files = None\<rparr>)"

definition half_entry :: file_entry where
  "half_entry =
     \<lparr>name = Some ''a.txt'', content = None, meta_file = None, source = Some ''x''\<rparr>"

definition remote_no_files :: remote where
  "remote_no_files chatId k =
     (120, Inr \<lparr>lv_status = Some ''completed'', lv_files = Some [], root_files = None\<rparr>)"

definition remote_only_malformed :: remote where
  "remote_only_malformed chatId k =
     (120, Inr \<lparr>lv_status = Some ''completed'',
                lv_files = Some [entry ''notes.txt'' []], root_files = None\<rparr>)"

definition remote_duplicate :: remote where
  "remote_duplicate chatId k =
     (1, Inr \<lparr>lv_status = Some ''completed'',
              lv_files = Some [entry ''a.txt'' ''first'', entry ''a.txt'' ''second''],
              root_files = None\<rparr>)"

definition remote_one :: remote where
  "remote_one chatId k =
     (1, Inr \<lparr>lv_status = Some ''completed'',
              lv_files = Some [entry ''a.txt'' ''first''],
              root_files = None\<rparr>)"

definition world_with_file :: world where
  "world_with_file =
     \<lparr>now = 0, calls = 0, cwd = ''/w'',
      fs = (\<lambda>k. if k = [''w''] then Some Dir
                 else if k = [''w'', ''out''] then Some (File ''not a directory'') else None),
      trace = []\<rparr>"

definition well_formed :: "file_entry \<Rightarrow> bool" where
  "well_formed f = (truthy (name f) \<and> truthy (content f))"

definition destination :: "string \<Rightarrow> file_entry \<Rightarrow> string" where
  "destination dir f = path_join [dir, the (name f)]"

definition example_files :: "file_entry list" where
  "example_files = [entry ''a.txt'' ''first'', entry ''ui/b.txt'' ''second'']"

definition repeated_files :: "file_entry list" where
  "repeated_files = [entry ''a.txt'' ''first'', entry ''a.txt'' ''second'']"

definition manifest_text :: "string list \<Rightarrow> string" where
  "manifest_text savedFiles = join_lines (map export_line (filter is_component savedFiles)) @ [CHR 0x0A]"

definition thrown :: "error + 'a \<Rightarrow> error option" where
  "thrown r = (case r of Inl e \<Rightarrow> Some e | Inr v \<Rightarrow> None)"

definition remote_button :: remote where
  "remote_button chatId k =
     (1, Inr \<lparr>lv_status = Some ''completed'',
              lv_files = Some [entry ''Button.tsx'' ''export default function Button(){}''],
              root_files = None\<rparr>)"

definition remote_index_dir :: remote where
  "remote_index_dir chatId k =
     (1, Inr \<lparr>lv_status = Some ''completed'',
              lv_files = Some [entry ''index.js/Button.tsx'' ''export default function Button(){}''],
              root_files = None\<rparr>)"

definition remote_reindex :: remote where
  "remote_reindex chatId k =
     (1, Inr \<lparr>lv_status = Some ''completed'',
              lv_files = Some [entry ''reindex.js'' ''export default function reindex(){}''],
              root_files = None\<rparr>)"

definition example_templates :: templates where
  "example_templates =
     \<lparr>envTemplate = ''V0_API_KEY=your_v0_api_key_here'',
      middlewareContent = ''export const config = {}'',
      apiHelperContent = ''export interface QueryConfig {}''\<rparr>"

definition world_with_sources :: world where
  "world_with_sources =
     \<lparr>now = 0, calls = 0, cwd = ''/w'',
      fs = (\<lambda>k. if k = [''w''] \<or> k = [''w'', ''out''] then Some Dir
                 else if k = [''w'', ''out'', ''b.ts'']
                   then Some (File ''import { db } from \"lib/db\"'')
                 else if k = [''w'', ''out'', ''c.ts'']
                   then Some (File ''import { z } from \"zod\"'')
                 else None),
      trace = []\<rparr>"

type_synonym stage = "world \<Rightarrow> (error + string list) \<times> world"

text \<open>The world in which stage \<open>i\<close> starts when every stage before it has run.\<close>

fun world_before :: "stage list \<Rightarrow> nat \<Rightarrow> world \<Rightarrow> world" where
  "world_before stages 0 w = w"
| "world_before [] (Suc i) w = w"
| "world_before (s # stages) (Suc i) w = world_before stages i (snd (s w))"

definition stage_result :: "stage list \<Rightarrow> nat \<Rightarrow> world \<Rightarrow> (error + string list) \<times> world" where
  "stage_result stages i w = (stages ! i) (world_before stages i w)"

text \<open>A stage is productive when it returns a file list that is not empty.\<close>

definition productive :: "error + string list \<Rightarrow> bool" where
  "productive r = (case r of Inl e \<Rightarrow> False | Inr files \<Rightarrow> files \<noteq> [])"

text \<open>
  What the specification asks of a staged retry that ends with \<open>res\<close>: the result is that
  of the first productive stage, in the world that stage left, after exactly one remote
  call per stage up to it; and it is the empty list, after every stage has run, when no
  stage is productive.
\<close>

definition stops_at_first_productive :: "stage list \<Rightarrow> world \<Rightarrow> string list \<times> world \<Rightarrow> bool" where
  "stops_at_first_productive stages w res =
     ((\<forall>i<length stages.
         (\<forall>j<i. \<not> productive (fst (stage_result stages j w))) \<and>
         productive (fst (stage_result stages i w)) \<longrightarrow>
           fst (stage_result stages i w) = Inr (fst res) \<and>
           snd res = snd (stage_result stages i w) \<and>
           calls (snd res) = calls w + i + 1) \<and>
      ((\<forall>j<length stages. \<not> productive (fst (stage_result stages j w))) \<longrightarrow>
           fst res = [] \<and> snd res = world_before stages (length stages) w \<and>
           calls (snd res) = calls w + length stages))"

definition final_stages :: "templates \<Rightarrow> remote \<Rightarrow> string \<Rightarrow> string \<Rightarrow> stage list" where
  "final_stages tpl remote chatId dir = map (run_strategy tpl remote chatId dir) strategies"

definition retry_stages :: "templates \<Rightarrow> remote \<Rightarrow> string \<Rightarrow> string \<Rightarrow> stage list" where
  "retry_stages tpl remote chatId dir =
     map (\<lambda>retry w. downloadGeneratedCode_enforced tpl remote chatId dir
                       (sleep (10000 + retry * 5000) w)) [1..<6]"

text \<open>The loop both retry sequences follow, over any list of stages.\<close>

fun first_productive :: "stage list \<Rightarrow> world \<Rightarrow> string list \<times> world" where
  "first_productive [] w = ([], w)"
| "first_productive (s # stages) w =
     (case s w of
        (Inl e, w1) \<Rightarrow> first_productive stages w1
      | (Inr files, w1) \<Rightarrow> if files \<noteq> [] then (files, w1) else first_productive stages w1)"

definition one_call_each :: "stage list \<Rightarrow> bool" where
  "one_call_each stages = (\<forall>s\<in>set stages. \<forall>w. calls (snd (s w)) = calls w + 1)"

definition remote_second_try :: remote where
  "remote_second_try chatId k =
     (if k = 0 then (1, Inl (Err ''socket hang up''))
      else (1, Inr \<lparr>lv_status = Some ''completed'',
                    lv_files = Some [entry ''Button.tsx'' ''export default function Button(){}''],
                    root_files = None\<rparr>))"

definition remote_never :: remote where
  "remote_never chatId k = (1, Inl (Err ''socket hang up''))"

definition remote_fifth_fails :: remote where
  "remote_fifth_fails chatId k =
     (if k = 4 then (0, Inl (Err ''socket hang up''))
      else (0, Inr \<lparr>lv_status = Some ''pending'', lv_files = None, root_files = None\<rparr>))"

definition remote_failed :: remote where
  "remote_failed chatId k =
     (if k = 0 then (0, Inr \<lparr>lv_status = Some ''failed'', lv_files = None, root_files = None\<rparr>)
      else (0, Inl (Err ''socket hang up'')))"





definition remote_failed_empty :: remote where
  "remote_failed_empty chatId k =
     (0, Inr \<lparr>lv_status = Some ''failed'', lv_files = None, root_files = None\<rparr>)"

definition after_four_polls :: world where
  "after_four_polls = example_world\<lparr>now := 8000, calls := 4\<rparr>"

section \<open>Properties of the command line\<close>

lemma parse_step_help_kept: "help_flag opts \<Longrightarrow> help_flag (snd (parse_step arg rest opts))"
  by (simp add: parse_step_def)

lemma parse_loop_help_kept: "help_flag opts \<Longrightarrow> help_flag (parse_loop args opts)"
  by (induction args opts rule: parse_loop.induct) (simp_all add: parse_step_help_kept)

text \<open>
  C4, as stated, fails: with the API key present, \<^verbatim>\<open>--help\<close> ends each of the three
  scripts with exit status 0. In the SDK creator a command line that starts with
  \<^verbatim>\<open>list\<close> runs the list command, which calls the remote service, whether or not
  \<^verbatim>\<open>--help\<close> follows.
\<close>

theorem help_exit_status_counterexample:
  "main_entry (Some ''key'') [''--help''] = Exit 0 \<and>
   main_entry_basic (Some ''key'') [''--help''] = Exit 0 \<and>
   main_entry_sdk (Some ''key'') [''--help''] = Exit 0 \<and>
   help_flag (parseArgs_sdk [''list'', ''--help'']) \<and>
   main_entry_sdk (Some ''key'') [''list'', ''--help''] = ListRecentChats"
  by (simp add: main_entry_def parseArgs_def default_options_def parse_step_def
      main_entry_basic_def parseArgs_basic_def default_basic_options_def parse_step_basic_def
      main_entry_sdk_def parseArgs_sdk_def default_sdk_options_def parse_step_sdk_def
      arg_at_def startsWith_def)

text \<open>
  C4, amended: in each of the three scripts, when the API key is present, a help
  invocation exits with status 0 and a missing prompt (without help) exits with status 1,
  and when the key is absent every invocation exits with status 1; for the SDK creator
  this holds of the command lines that are not one of its two special commands. In each
  of these cases the process exits before the call that creates the chat, so no remote
  call is attempted.
\<close>

theorem help_or_missing_prompt_exit:
  "(truthy api_key \<and> help_flag (parseArgs args) \<longrightarrow> main_entry api_key args = Exit 0) \<and>
   (truthy api_key \<and> \<not> help_flag (parseArgs args) \<and> \<not> truthy (prompt (parseArgs args))
      \<longrightarrow> main_entry api_key args = Exit 1) \<and>
   (\<not> truthy api_key \<longrightarrow> main_entry api_key args = Exit 1) \<and>
   (truthy api_key \<and> help_flag (parseArgs_basic args)
      \<longrightarrow> main_entry_basic api_key args = Exit 0) \<and>
   (truthy api_key \<and> \<not> help_flag (parseArgs_basic args) \<and>
    \<not> truthy (prompt (parseArgs_basic args))
      \<longrightarrow> main_entry_basic api_key args = Exit 1) \<and>
   (\<not> truthy api_key \<longrightarrow> main_entry_basic api_key args = Exit 1) \<and>
   (truthy api_key \<and> \<not> special_command args \<and> help_flag (parseArgs_sdk args)
      \<longrightarrow> main_entry_sdk api_key args = Exit 0) \<and>
   (truthy api_key \<and> \<not> special_command args \<and> \<not> help_flag (parseArgs_sdk args) \<and>
    \<not> truthy (prompt (parseArgs_sdk args))
      \<longrightarrow> main_entry_sdk api_key args = Exit 1) \<and>
   (\<not> truthy api_key \<longrightarrow> main_entry_sdk api_key args = Exit 1)"
  by (simp add: main_entry_def main_entry_basic_def main_entry_sdk_def special_command_def Let_def)

theorem help_or_missing_prompt_exit_witness:
  "truthy (Some ''key'') \<and> \<not> truthy None \<and>
   help_flag (parseArgs [''-o'', ''out'', ''-h'']) \<and>
   main_entry (Some ''key'') [''-o'', ''out'', ''-h''] = Exit 0 \<and>
   help_flag (parseArgs_basic [''-o'', ''out'', ''-h'']) \<and>
   main_entry_basic (Some ''key'') [''-o'', ''out'', ''-h''] = Exit 0 \<and>
   \<not> special_command [''-o'', ''out'', ''-h''] \<and>
   help_flag (parseArgs_sdk [''-o'', ''out'', ''-h'']) \<and>
   main_entry_sdk (Some ''key'') [''-o'', ''out'', ''-h''] = Exit 0 \<and>
   \<not> help_flag (parseArgs [''-t'', ''-p'']) \<and> \<not> truthy (prompt (parseArgs [''-t'', ''-p''])) \<and>
   main_entry (Some ''key'') [''-t'', ''-p''] = Exit 1 \<and>
   \<not> help_flag (parseArgs_basic [''-t'', ''-p'']) \<and>
   \<not> truthy (prompt (parseArgs_basic [''-t'', ''-p''])) \<and>
   main_entry_basic (Some ''key'') [''-t'', ''-p''] = Exit 1 \<and>
   \<not> special_command [''-t'', ''-p''] \<and>
   \<not> help_flag (parseArgs_sdk [''-t'', ''-p'']) \<and>
   \<not> truthy (prompt (parseArgs_sdk [''-t'', ''-p''])) \<and>
   main_entry_sdk (Some ''key'') [''-t'', ''-p''] = Exit 1 \<and>
   main_entry None [''--help''] = Exit 1 \<and>
   main_entry_basic None [''--help''] = Exit 1 \<and>
   main_entry_sdk None [''--help''] = Exit 1"
  using help_or_missing_prompt_exit [of "Some ''key''" "[''-o'', ''out'', ''-h'']"]
    help_or_missing_prompt_exit [of "Some ''key''" "[''-t'', ''-p'']"]
    help_or_missing_prompt_exit [of None "[''--help'']"]
  by (simp add: parseArgs_def default_options_def parse_step_def
      parseArgs_basic_def default_basic_options_def parse_step_basic_def
      parseArgs_sdk_def default_sdk_options_def parse_step_sdk_def
      special_command_def arg_at_def startsWith_def)

section \<open>Properties of the download, the wait and the retries\<close>

lemma save_file_skipped:
  "\<not> (truthy (fst (pick_fields f)) \<and> truthy (snd (pick_fields f)))
   \<Longrightarrow> save_file dir f saved w = (Inr saved, w)"
  unfolding save_file_def Let_def by (simp only: if_False)

lemma save_files_append:
  "save_files dir (xs @ ys) saved w =
     (case save_files dir xs saved w of
        (Inl e, w1) \<Rightarrow> (Inl e, w1)
      | (Inr saved1, w1) \<Rightarrow> save_files dir ys saved1 w1)"
proof (induction xs arbitrary: saved w)
  case Nil
  show ?case by simp
next
  case (Cons x xs)
  show ?case
  proof (cases "save_file dir x saved w")
    case (Pair r w1)
    then show ?thesis using Cons.IH by (cases r) simp_all
  qed
qed

lemma save_files_all_skipped:
  "\<forall>f\<in>set files. \<not> (truthy (fst (pick_fields f)) \<and> truthy (snd (pick_fields f)))
   \<Longrightarrow> save_files dir files saved w = (Inr saved, w)"
  by (induction files) (simp_all add: save_file_skipped)

lemma pick_fields_neither:
  "\<not> (truthy (name e) \<and> truthy (content e)) \<Longrightarrow>
   \<not> (truthy (meta_file e) \<and> truthy (source e)) \<Longrightarrow>
   pick_fields e = (None, None)"
  by (auto simp: pick_fields_def)

text \<open>
  C3, amended: an entry that is complete in neither of the two shapes of the service (its
  name or its content is missing or the empty string, and its \<^verbatim>\<open>meta.file\<close> or its
  \<^verbatim>\<open>source\<close> is missing or the empty string) is skipped by the write loop. Nothing is
  written for it, it adds nothing to the returned list, no error is thrown, and the
  entries before and after it are processed as if it were not there.
\<close>

theorem skip_malformed_entry:
  assumes "\<not> (truthy (name e) \<and> truthy (content e))"
    and "\<not> (truthy (meta_file e) \<and> truthy (source e))"
  shows "save_file dir e saved w = (Inr saved, w) \<and>
         save_files dir (xs @ e # ys) saved w = save_files dir (xs @ ys) saved w"
proof -
  from assms have "pick_fields e = (None, None)" by (rule pick_fields_neither)
  then have sk: "save_file dir e saved1 w1 = (Inr saved1, w1)" for saved1 w1
    by (simp add: save_file_skipped)
  then have "save_files dir (e # ys) saved1 w1 = save_files dir ys saved1 w1" for saved1 w1
    by simp
  then have step: "save_files dir (e # ys) = save_files dir ys"
    by (intro ext)
  have "save_files dir (xs @ e # ys) saved w = save_files dir (xs @ ys) saved w"
    by (simp only: save_files_append [of dir xs] step)
  with sk show ?thesis by simp
qed

text \<open>
  C3, as stated, fails: an entry with a name and empty content that also carries
  \<^verbatim>\<open>meta.file\<close> and \<^verbatim>\<open>source\<close> is not skipped. The loop takes it in its second shape,
  writes the source under the name in \<^verbatim>\<open>meta.file\<close> and returns that path.
\<close>

theorem skip_malformed_entry_counterexample:
  "truthy (name mixed_entry) \<and> \<not> truthy (content mixed_entry) \<and>
   fst (save_file ''out'' mixed_entry [] example_world) = Inr [''out/b.txt''] \<and>
   readFileSync (snd (save_file ''out'' mixed_entry [] example_world)) ''out/b.txt'' = Inr ''x'' \<and>
   fst (downloadGeneratedCode remote_mixed ''c1'' ''out'' example_world) = Inr [''out/b.txt'']"
  by code_simp

text \<open>
  An entry with a name and empty content, and an entry with half of each shape, each
  between two entries that are written.
\<close>

theorem skip_malformed_entry_witness:
  "truthy (name (entry ''notes.txt'' [])) \<and> \<not> truthy (content (entry ''notes.txt'' [])) \<and>
   \<not> truthy (meta_file (entry ''notes.txt'' [])) \<and>
   save_file ''out'' (entry ''notes.txt'' []) [] example_world = (Inr [], example_world) \<and>
   save_files ''out'' ([entry ''a.txt'' ''x''] @ entry ''notes.txt'' [] # [entry ''b.txt'' ''y''])
      [] example_world =
   save_files ''out'' ([entry ''a.txt'' ''x''] @ [entry ''b.txt'' ''y'']) [] example_world \<and>
   \<not> truthy (content half_entry) \<and> \<not> truthy (meta_file half_entry) \<and>
   save_file ''out'' half_entry [] example_world = (Inr [], example_world) \<and>
   save_files ''out'' ([entry ''a.txt'' ''x''] @ half_entry # [entry ''b.txt'' ''y''])
      [] example_world =
   save_files ''out'' ([entry ''a.txt'' ''x''] @ [entry ''b.txt'' ''y'']) [] example_world"
  using skip_malformed_entry [of "entry ''notes.txt'' []"
      "''out''" "[]" example_world "[entry ''a.txt'' ''x'']" "[entry ''b.txt'' ''y'']"]
    skip_malformed_entry [of half_entry
      "''out''" "[]" example_world "[entry ''a.txt'' ''x'']" "[entry ''b.txt'' ''y'']"]
  by (simp add: entry_def half_entry_def)

lemma self_in_prefixes: "k \<noteq> [] \<Longrightarrow> k \<in> set (prefixes_of k)"
proof -
  assume "k \<noteq> []"
  then have "length k \<in> set [1..<Suc (length k)]" by (cases k) simp_all
  then have "take (length k) k \<in> set (prefixes_of k)"
    unfolding prefixes_of_def by (simp only: set_map image_eqI)
  then show ?thesis by simp
qed

lemma mkdirSync_exists: "mkdirSync w p = Inr w1 \<Longrightarrow> existsSync w1 p"
  by (cases "resolve (cwd w) p = []")
     (auto simp: mkdirSync_def existsSync_def node_at_def Let_def self_in_prefixes
       split: if_splits)

lemma mkdirSync_same_fs:
  "cwd w1 = cwd w \<Longrightarrow> fs w1 = fs w \<Longrightarrow> mkdirSync w p = Inr w2
   \<Longrightarrow> mkdirSync w1 p = Inr (w1\<lparr>fs := fs w2\<rparr>)"
  by (auto simp: mkdirSync_def Let_def split: if_splits cong del: if_weak_cong)

lemma existsSync_same_fs: "cwd w1 = cwd w \<Longrightarrow> fs w1 = fs w \<Longrightarrow> existsSync w1 p = existsSync w p"
  by (simp add: existsSync_def)

lemma fetch_and_save_no_files:
  assumes "snd (remote chatId (calls w)) = Inr c" and "chat_files c = []"
  shows "fst (fetch_and_save remote chatId dir w) = Inr [] \<and>
         fs (snd (fetch_and_save remote chatId dir w)) = fs w"
  using assms by (simp add: fetch_and_save_def getChat_def)

lemma fetch_and_save_all_skipped:
  assumes "snd (remote chatId (calls w)) = Inr c" and "chat_files c \<noteq> []"
    and "\<forall>f\<in>set (chat_files c). \<not> (truthy (fst (pick_fields f)) \<and> truthy (snd (pick_fields f)))"
    and "\<not> existsSync w dir" and "mkdirSync w dir = Inr w2"
  shows "fst (fetch_and_save remote chatId dir w) = Inr [] \<and>
         fs (snd (fetch_and_save remote chatId dir w)) = fs w2 \<and>
         existsSync (snd (fetch_and_save remote chatId dir w)) dir"
proof -
  define w1 where "w1 = w\<lparr>now := now w + fst (remote chatId (calls w)), calls := calls w + 1\<rparr>"
  have g: "getChat remote chatId w = (Inr c, w1)"
    using assms(1) by (simp add: getChat_def w1_def)
  have same: "cwd w1 = cwd w" "fs w1 = fs w" by (simp_all add: w1_def)
  from same assms(4) have ne: "\<not> existsSync w1 dir"
    using existsSync_same_fs [of w1 w dir] by simp
  from same assms(5) have mk: "mkdirSync w1 dir = Inr (w1\<lparr>fs := fs w2\<rparr>)"
    by (rule mkdirSync_same_fs)
  then have ex: "existsSync (w1\<lparr>fs := fs w2\<rparr>) dir" by (rule mkdirSync_exists)
  have "fetch_and_save remote chatId dir w = (Inr [], w1\<lparr>fs := fs w2\<rparr>)"
    using g assms(2) ne mk save_files_all_skipped [OF assms(3)]
    by (simp add: fetch_and_save_def)
  with ex show ?thesis by simp
qed

text \<open>
  C10: when the fetched chat has no files, \<^verbatim>\<open>downloadGeneratedCode\<close> (in both scripts)
  returns the empty list and leaves the file system as it was; the output directory is
  not created. When the file list is not empty, the output directory is created if it did
  not exist, even when every entry is then skipped.
\<close>

theorem download_without_files:
  assumes "snd (remote chatId (calls w)) = Inr c"
  shows "(chat_files c = [] \<longrightarrow>
            fst (downloadGeneratedCode remote chatId dir w) = Inr [] \<and>
            fs (snd (downloadGeneratedCode remote chatId dir w)) = fs w \<and>
            fst (downloadGeneratedCode_enforced tpl remote chatId dir w) = Inr [] \<and>
            fs (snd (downloadGeneratedCode_enforced tpl remote chatId dir w)) = fs w) \<and>
         (chat_files c \<noteq> [] \<and>
          (\<forall>f\<in>set (chat_files c). \<not> (truthy (fst (pick_fields f)) \<and> truthy (snd (pick_fields f)))) \<and>
          \<not> existsSync w dir \<and> mkdirSync w dir = Inr w2 \<longrightarrow>
            fst (downloadGeneratedCode remote chatId dir w) = Inr [] \<and>
            fs (snd (downloadGeneratedCode remote chatId dir w)) = fs w2 \<and>
            existsSync (snd (downloadGeneratedCode remote chatId dir w)) dir \<and>
            fst (downloadGeneratedCode_enforced tpl remote chatId dir w) = Inr [] \<and>
            fs (snd (downloadGeneratedCode_enforced tpl remote chatId dir w)) = fs w2 \<and>
            existsSync (snd (downloadGeneratedCode_enforced tpl remote chatId dir w)) dir)"
proof (intro conjI impI)
  assume e: "chat_files c = []"
  obtain r w1 where f: "fetch_and_save remote chatId dir w = (r, w1)"
    by (cases "fetch_and_save remote chatId dir w")
  with fetch_and_save_no_files [of remote chatId w c dir] assms e have r: "r = Inr []" and w1: "fs w1 = fs w"
    by simp_all
  from f r w1 show "fst (downloadGeneratedCode remote chatId dir w) = Inr []"
    "fs (snd (downloadGeneratedCode remote chatId dir w)) = fs w"
    "fst (downloadGeneratedCode_enforced tpl remote chatId dir w) = Inr []"
    "fs (snd (downloadGeneratedCode_enforced tpl remote chatId dir w)) = fs w"
    by (simp_all add: downloadGeneratedCode_def downloadGeneratedCode_enforced_def)
next
  assume a: "chat_files c \<noteq> [] \<and>
    (\<forall>f\<in>set (chat_files c). \<not> (truthy (fst (pick_fields f)) \<and> truthy (snd (pick_fields f)))) \<and>
    \<not> existsSync w dir \<and> mkdirSync w dir = Inr w2"
  obtain r w1 where f: "fetch_and_save remote chatId dir w = (r, w1)"
    by (cases "fetch_and_save remote chatId dir w")
  from a have "fst (fetch_and_save remote chatId dir w) = Inr [] \<and>
         fs (snd (fetch_and_save remote chatId dir w)) = fs w2 \<and>
         existsSync (snd (fetch_and_save remote chatId dir w)) dir"
    using fetch_and_save_all_skipped [of remote chatId w c dir w2] assms by blast
  with f have r: "r = Inr []" and w1: "fs w1 = fs w2" and ex: "existsSync w1 dir"
    by simp_all
  from f r w1 ex show "fst (downloadGeneratedCode remote chatId dir w) = Inr []"
    "fs (snd (downloadGeneratedCode remote chatId dir w)) = fs w2"
    "existsSync (snd (downloadGeneratedCode remote chatId dir w)) dir"
    "fst (downloadGeneratedCode_enforced tpl remote chatId dir w) = Inr []"
    "fs (snd (downloadGeneratedCode_enforced tpl remote chatId dir w)) = fs w2"
    "existsSync (snd (downloadGeneratedCode_enforced tpl remote chatId dir w)) dir"
    by (simp_all add: downloadGeneratedCode_def downloadGeneratedCode_enforced_def)
qed

lemma resolve_out: "resolve ''/w'' ''out'' = [''w'', ''out'']"
  by code_simp

lemma prefixes_out: "prefixes_of [''w'', ''out''] = [[''w''], [''w'', ''out'']]"
  by code_simp

text \<open>A chat without files, and a chat whose only entry has empty content.\<close>

theorem download_without_files_witness:
  "fst (downloadGeneratedCode remote_no_files ''c1'' ''out'' example_world) = Inr [] \<and>
   fs (snd (downloadGeneratedCode remote_no_files ''c1'' ''out'' example_world)) = fs example_world \<and>
   \<not> existsSync example_world ''out'' \<and>
   fst (downloadGeneratedCode remote_only_malformed ''c1'' ''out'' example_world) = Inr [] \<and>
   existsSync (snd (downloadGeneratedCode remote_only_malformed ''c1'' ''out'' example_world)) ''out''"
proof -
  let ?c0 = "\<lparr>lv_status = Some ''completed'', lv_files = Some [], root_files = None\<rparr>"
  let ?c1 = "\<lparr>lv_status = Some ''completed'', lv_files = Some [entry ''notes.txt'' []],
              root_files = None\<rparr>"
  let ?w2 = "example_world\<lparr>fs := (\<lambda>q. if q \<in> set (prefixes_of [''w'', ''out'']) then Some Dir
                                      else fs example_world q)\<rparr>"
  have h0: "snd (remote_no_files ''c1'' (calls example_world)) = Inr ?c0"
    by (simp add: remote_no_files_def)
  have e0: "chat_files ?c0 = []" by (simp add: chat_files_def)
  have h1: "snd (remote_only_malformed ''c1'' (calls example_world)) = Inr ?c1"
    by (simp add: remote_only_malformed_def)
  have e1: "chat_files ?c1 \<noteq> []" by (simp add: chat_files_def)
  have s1: "\<forall>f\<in>set (chat_files ?c1). \<not> (truthy (fst (pick_fields f)) \<and> truthy (snd (pick_fields f)))"
    by (simp add: chat_files_def entry_def pick_fields_def)
  have n1: "\<not> existsSync example_world ''out''"
    by (simp add: existsSync_def example_world_def resolve_out node_at_def)
  have m1: "mkdirSync example_world ''out'' = Inr ?w2"
    by (simp add: mkdirSync_def example_world_def resolve_out prefixes_out node_at_def is_file_def
        cong del: if_weak_cong)
  from download_without_files [of remote_no_files "''c1''" example_world ?c0 "''out''"] h0 e0
  have a: "fst (downloadGeneratedCode remote_no_files ''c1'' ''out'' example_world) = Inr [] \<and>
      fs (snd (downloadGeneratedCode remote_no_files ''c1'' ''out'' example_world)) = fs example_world"
    by blast
  from download_without_files [of remote_only_malformed "''c1''" example_world ?c1 "''out''" _ ?w2]
    h1 e1 s1 n1 m1
  have b: "fst (downloadGeneratedCode remote_only_malformed ''c1'' ''out'' example_world) = Inr [] \<and>
      existsSync (snd (downloadGeneratedCode remote_only_malformed ''c1'' ''out'' example_world)) ''out''"
    by blast
  from a b n1 show ?thesis by blast
qed

text \<open>
  C1, as stated, fails. Two well-formed pairs with the same name give two entries for one
  file, which holds the content of the second pair, not of the first. And when the
  destination root is an existing regular file, the write throws: nothing is returned.
\<close>

theorem materialize_counterexample:
  "fst (downloadGeneratedCode remote_duplicate ''c1'' ''out'' example_world)
     = Inr [''out/a.txt'', ''out/a.txt''] \<and>
   readFileSync (snd (downloadGeneratedCode remote_duplicate ''c1'' ''out'' example_world)) ''out/a.txt''
     = Inr ''second'' \<and>
   fst (downloadGeneratedCode remote_one ''c1'' ''out'' world_with_file) = Inl (Err ''ENOTDIR'')"
  by code_simp

lemma well_formed_pick: "well_formed f \<Longrightarrow> pick_fields f = (name f, content f)"
  by (simp add: well_formed_def pick_fields_def)

lemma writeFileSync_effect:
  assumes "writeFileSync w p c = Inr w1"
  shows "cwd w1 = cwd w \<and> fs w1 = (fs w)(resolve (cwd w) p \<mapsto> File c) \<and>
         \<not> endsWith p ''/'' \<and> resolve (cwd w) p \<noteq> []"
  using assms
  by (auto simp: writeFileSync_def Let_def node_at_def split: if_splits option.splits node.splits)

lemma mkdirSync_keeps_files:
  assumes "mkdirSync w p = Inr w1" and "node_at (fs w) k = Some (File c)"
  shows "node_at (fs w1) k = Some (File c)"
proof -
  have "k \<notin> set (prefixes_of (resolve (cwd w) p))"
  proof
    assume "k \<in> set (prefixes_of (resolve (cwd w) p))"
    with assms(2) have "list_ex (\<lambda>q. is_file (node_at (fs w) q)) (prefixes_of (resolve (cwd w) p))"
      by (auto simp: list_ex_iff is_file_def intro!: bexI [of _ k])
    with assms(1) show False by (simp add: mkdirSync_def Let_def split: if_splits)
  qed
  with assms show ?thesis
    by (auto simp: mkdirSync_def Let_def node_at_def split: if_splits)
qed

lemma ensure_dir_keeps_files:
  assumes "(if \<not> existsSync w d then mkdirSync w d else Inr w) = Inr w1"
    and "node_at (fs w) k = Some (File c)"
  shows "node_at (fs w1) k = Some (File c)"
  using assms by (auto split: if_splits dest: mkdirSync_keeps_files)

lemma ensure_dir_cwd:
  "(if \<not> existsSync w d then mkdirSync w d else Inr w) = Inr w1 \<Longrightarrow> cwd w1 = cwd w"
  by (drule ensure_dir_only_fs) (simp add: only_fs_changed_def)

lemma save_file_effect:
  assumes wf: "well_formed f" and sf: "save_file dir f saved w = (Inr saved1, w1)"
  shows "saved1 = saved @ [destination dir f] \<and> cwd w1 = cwd w \<and>
         \<not> endsWith (destination dir f) ''/'' \<and>
         node_at (fs w1) (resolve (cwd w) (destination dir f)) = Some (File (the (content f))) \<and>
         (\<forall>k c. k \<noteq> resolve (cwd w) (destination dir f) \<longrightarrow> node_at (fs w) k = Some (File c)
            \<longrightarrow> node_at (fs w1) k = Some (File c))"
proof -
  let ?p = "destination dir f"
  let ?d = "path_dirname ?p"
  have eq: "save_file dir f saved w =
      (case (if \<not> existsSync w ?d then mkdirSync w ?d else Inr w) of
         Inl e \<Rightarrow> (Inl e, w)
       | Inr wa \<Rightarrow>
           (case writeFileSync wa ?p (the (content f)) of
              Inl e \<Rightarrow> (Inl e, wa)
            | Inr wb \<Rightarrow> (Inr (saved @ [?p]), wb)))"
    using wf unfolding destination_def save_file_def Let_def well_formed_pick [OF wf] fst_conv snd_conv
    by (simp add: well_formed_def)
  obtain wa where ed: "(if \<not> existsSync w ?d then mkdirSync w ?d else Inr w) = Inr wa"
    using sf unfolding eq
    by (cases "if \<not> existsSync w ?d then mkdirSync w ?d else Inr w") simp_all
  from sf ed have wr: "writeFileSync wa ?p (the (content f)) = Inr w1"
    and s1: "saved1 = saved @ [?p]"
    unfolding eq by (auto split: sum.splits)
  from ed have ca: "cwd wa = cwd w" by (rule ensure_dir_cwd)
  from writeFileSync_effect [OF wr] ca
  have e: "cwd w1 = cwd w" "fs w1 = (fs wa)(resolve (cwd w) ?p \<mapsto> File (the (content f)))"
    "\<not> endsWith ?p ''/''" "resolve (cwd w) ?p \<noteq> []"
    by simp_all
  have keep: "node_at (fs w1) k = Some (File c)"
    if "k \<noteq> resolve (cwd w) ?p" "node_at (fs w) k = Some (File c)" for k c
  proof -
    from ed that(2) have "node_at (fs wa) k = Some (File c)" by (rule ensure_dir_keeps_files)
    with that(1) e(2) show ?thesis by (auto simp: node_at_def split: if_splits)
  qed
  from e have "node_at (fs w1) (resolve (cwd w) ?p) = Some (File (the (content f)))"
    by (simp add: node_at_def)
  with s1 e keep show ?thesis by blast
qed

lemma save_files_effect:
  assumes "\<forall>f\<in>set files. well_formed f"
    and "save_files dir files saved w = (Inr saved1, w1)"
  shows "saved1 = saved @ map (destination dir) files \<and> cwd w1 = cwd w \<and>
         (\<forall>f\<in>set files. \<not> endsWith (destination dir f) ''/'') \<and>
         (\<forall>k c. k \<notin> (\<lambda>f. resolve (cwd w) (destination dir f)) ` set files \<longrightarrow>
            node_at (fs w) k = Some (File c) \<longrightarrow> node_at (fs w1) k = Some (File c)) \<and>
         (\<forall>i<length files.
            (\<forall>j<length files. i < j \<longrightarrow>
               resolve (cwd w) (destination dir (files ! j))
                 \<noteq> resolve (cwd w) (destination dir (files ! i))) \<longrightarrow>
            node_at (fs w1) (resolve (cwd w) (destination dir (files ! i)))
              = Some (File (the (content (files ! i)))))"
  using assms
proof (induction files arbitrary: saved w)
  case Nil
  then show ?case by simp
next
  case (Cons x xs)
  let ?loc = "\<lambda>f. resolve (cwd w) (destination dir f)"
  from Cons.prems(1) have wx: "well_formed x" and wxs: "\<forall>f\<in>set xs. well_formed f" by simp_all
  obtain r wa where sf: "save_file dir x saved w = (r, wa)"
    by (cases "save_file dir x saved w")
  with Cons.prems(2) obtain sa where r: "r = Inr sa"
    by (cases r) simp_all
  from sf r Cons.prems(2) have rest: "save_files dir xs sa wa = (Inr saved1, w1)" by simp
  from save_file_effect [OF wx sf [unfolded r]]
  have a: "sa = saved @ [destination dir x]" "cwd wa = cwd w" "\<not> endsWith (destination dir x) ''/''"
    "node_at (fs wa) (?loc x) = Some (File (the (content x)))"
    "\<And>k c. k \<noteq> ?loc x \<Longrightarrow> node_at (fs w) k = Some (File c) \<Longrightarrow> node_at (fs wa) k = Some (File c)"
    by blast+
  from Cons.IH [OF wxs rest] a(2)
  have b: "saved1 = sa @ map (destination dir) xs" "cwd w1 = cwd w"
    "\<forall>f\<in>set xs. \<not> endsWith (destination dir f) ''/''"
    "\<And>k c. k \<notin> ?loc ` set xs \<Longrightarrow> node_at (fs wa) k = Some (File c)
        \<Longrightarrow> node_at (fs w1) k = Some (File c)"
    "\<And>i. i < length xs \<Longrightarrow> (\<forall>j<length xs. i < j \<longrightarrow> ?loc (xs ! j) \<noteq> ?loc (xs ! i))
        \<Longrightarrow> node_at (fs w1) (?loc (xs ! i)) = Some (File (the (content (xs ! i))))"
    by simp_all
  have c1: "saved1 = saved @ map (destination dir) (x # xs)" using a(1) b(1) by simp
  have c3: "\<forall>f\<in>set (x # xs). \<not> endsWith (destination dir f) ''/''" using a(3) b(3) by simp
  have c4: "node_at (fs w1) k = Some (File c)"
    if "k \<notin> ?loc ` set (x # xs)" "node_at (fs w) k = Some (File c)" for k c
  proof -
    from that(1) have "k \<noteq> ?loc x" "k \<notin> ?loc ` set xs" by auto
    with that(2) a(5) b(4) show ?thesis by blast
  qed
  have c5: "node_at (fs w1) (?loc ((x # xs) ! i)) = Some (File (the (content ((x # xs) ! i))))"
    if i: "i < length (x # xs)"
      and l: "\<forall>j<length (x # xs). i < j \<longrightarrow> ?loc ((x # xs) ! j) \<noteq> ?loc ((x # xs) ! i)" for i
  proof (cases i)
    case 0
    have ne: "?loc (xs ! j) \<noteq> ?loc x" if "j < length xs" for j
      using l [rule_format, of "Suc j"] that 0 by simp
    have nx: "?loc x \<notin> ?loc ` set xs"
    proof
      assume "?loc x \<in> ?loc ` set xs"
      then obtain f where f: "f \<in> set xs" "?loc x = ?loc f" by blast
      from f(1) obtain j where "j < length xs" "xs ! j = f" by (auto simp: in_set_conv_nth)
      with ne [of j] f(2) show False by simp
    qed
    from nx a(4) have "node_at (fs w1) (?loc x) = Some (File (the (content x)))" by (rule b(4))
    with 0 show ?thesis by simp
  next
    case (Suc i')
    with i have i': "i' < length xs" by simp
    have "\<forall>j<length xs. i' < j \<longrightarrow> ?loc (xs ! j) \<noteq> ?loc (xs ! i')"
    proof (intro allI impI)
      fix j assume "j < length xs" "i' < j"
      with l [rule_format, of "Suc j"] Suc show "?loc (xs ! j) \<noteq> ?loc (xs ! i')" by simp
    qed
    with i' have "node_at (fs w1) (?loc (xs ! i')) = Some (File (the (content (xs ! i'))))"
      by (rule b(5))
    with Suc show ?thesis by simp
  qed
  from c1 b(2) c3 c4 c5 show ?case by blast
qed

lemma readFileSync_file:
  "node_at (fs w) (resolve (cwd w) p) = Some (File c) \<Longrightarrow> \<not> endsWith p ''/''
   \<Longrightarrow> readFileSync w p = Inr c"
  by (simp add: readFileSync_def)

text \<open>
  C1, amended: for \<open>N\<close> well-formed pairs, when no file-system call of the write loop throws,
  the loop returns exactly \<open>N\<close> paths, the destination of each pair in input order; and
  a path that no later pair writes again, read back right after the loop, holds the
  content of its pair. So when the \<open>N\<close> paths are distinct locations every file holds the
  content of its pair, and a location written more than once holds the content of the
  last pair written to it.
\<close>

theorem materialize_returns_each_file:
  assumes "\<forall>f\<in>set files. well_formed f"
    and "save_files dir files [] w = (Inr saved, w1)"
  shows "length saved = length files \<and>
         saved = map (\<lambda>f. path_join [dir, the (name f)]) files \<and>
         (\<forall>i<length files.
            (\<forall>j<length files. i < j \<longrightarrow>
               resolve (cwd w) (saved ! j) \<noteq> resolve (cwd w) (saved ! i)) \<longrightarrow>
            readFileSync w1 (saved ! i) = Inr (the (content (files ! i))))"
proof -
  from save_files_effect [OF assms]
  have s: "saved = map (destination dir) files" and c: "cwd w1 = cwd w"
    and e: "\<forall>f\<in>set files. \<not> endsWith (destination dir f) ''/''"
    and d: "\<And>i. i < length files \<Longrightarrow>
            (\<forall>j<length files. i < j \<longrightarrow>
               resolve (cwd w) (destination dir (files ! j))
                 \<noteq> resolve (cwd w) (destination dir (files ! i))) \<Longrightarrow>
            node_at (fs w1) (resolve (cwd w) (destination dir (files ! i)))
              = Some (File (the (content (files ! i))))"
    by simp_all
  have s': "saved = map (\<lambda>f. path_join [dir, the (name f)]) files"
    using s by (simp add: destination_def [abs_def])
  have r: "readFileSync w1 (saved ! i) = Inr (the (content (files ! i)))"
    if i: "i < length files"
      and l: "\<forall>j<length files. i < j \<longrightarrow>
                resolve (cwd w) (saved ! j) \<noteq> resolve (cwd w) (saved ! i)" for i
  proof -
    from l s i have "\<forall>j<length files. i < j \<longrightarrow>
               resolve (cwd w) (destination dir (files ! j))
                 \<noteq> resolve (cwd w) (destination dir (files ! i))"
      by simp
    with i have "node_at (fs w1) (resolve (cwd w) (destination dir (files ! i)))
        = Some (File (the (content (files ! i))))" by (rule d)
    moreover from e i have "\<not> endsWith (destination dir (files ! i)) ''/''" by simp
    ultimately show ?thesis using s i c by (simp add: readFileSync_file)
  qed
  from s s' r show ?thesis by simp
qed

text \<open>
  Two files, one of them in a subdirectory; then two pairs with the same name.
\<close>

theorem materialize_returns_each_file_witness:
  "well_formed (entry ''a.txt'' ''first'') \<and> well_formed (entry ''ui/b.txt'' ''second'') \<and>
   fst (save_files ''out'' example_files [] example_world) = Inr [''out/a.txt'', ''out/ui/b.txt''] \<and>
   resolve (cwd example_world) ''out/ui/b.txt'' \<noteq> resolve (cwd example_world) ''out/a.txt'' \<and>
   readFileSync (snd (save_files ''out'' example_files [] example_world)) ''out/a.txt''
     = Inr ''first'' \<and>
   readFileSync (snd (save_files ''out'' example_files [] example_world)) ''out/ui/b.txt''
     = Inr ''second'' \<and>
   well_formed (entry ''a.txt'' ''second'') \<and>
   fst (save_files ''out'' repeated_files [] example_world) = Inr [''out/a.txt'', ''out/a.txt''] \<and>
   readFileSync (snd (save_files ''out'' repeated_files [] example_world)) ''out/a.txt''
     = Inr ''second''"
proof -
  let ?w1 = "snd (save_files ''out'' example_files [] example_world)"
  let ?w2 = "snd (save_files ''out'' repeated_files [] example_world)"
  let ?s1 = "[''out/a.txt'', ''out/ui/b.txt'']"
  let ?s2 = "[''out/a.txt'', ''out/a.txt'']"
  have h0: "well_formed (entry ''a.txt'' ''first'')" "well_formed (entry ''ui/b.txt'' ''second'')"
    "well_formed (entry ''a.txt'' ''second'')"
    by (simp_all add: entry_def well_formed_def)
  then have h1: "\<forall>f\<in>set example_files. well_formed f" "\<forall>f\<in>set repeated_files. well_formed f"
    by (simp_all add: example_files_def repeated_files_def)
  have h2: "fst (save_files ''out'' example_files [] example_world) = Inr ?s1"
    by code_simp
  then have h2': "save_files ''out'' example_files [] example_world = (Inr ?s1, ?w1)"
    by (metis prod.collapse)
  have h3: "fst (save_files ''out'' repeated_files [] example_world) = Inr ?s2"
    by code_simp
  then have h3': "save_files ''out'' repeated_files [] example_world = (Inr ?s2, ?w2)"
    by (metis prod.collapse)
  have n: "resolve (cwd example_world) ''out/ui/b.txt'' \<noteq> resolve (cwd example_world) ''out/a.txt''"
    by code_simp
  have len: "length example_files = 2" "length repeated_files = 2"
    by (simp_all add: example_files_def repeated_files_def)
  have later0: "\<forall>j<length example_files. 0 < j \<longrightarrow>
      resolve (cwd example_world) (?s1 ! j) \<noteq> resolve (cwd example_world) (?s1 ! 0)"
    using n by (auto simp: len less_Suc_eq numeral_2_eq_2)
  have later1: "\<forall>j<length example_files. 1 < j \<longrightarrow>
      resolve (cwd example_world) (?s1 ! j) \<noteq> resolve (cwd example_world) (?s1 ! 1)"
    by (simp add: len)
  have later2: "\<forall>j<length repeated_files. 1 < j \<longrightarrow>
      resolve (cwd example_world) (?s2 ! j) \<noteq> resolve (cwd example_world) (?s2 ! 1)"
    by (simp add: len)
  note r1 = materialize_returns_each_file
    [OF h1(1) h2', THEN conjunct2, THEN conjunct2, rule_format]
  note r2 = materialize_returns_each_file
    [OF h1(2) h3', THEN conjunct2, THEN conjunct2, rule_format]
  have "readFileSync ?w1 (?s1 ! 0) = Inr (the (content (example_files ! 0)))"
    using later0 by (intro r1) (auto simp: len)
  then have a: "readFileSync ?w1 ''out/a.txt'' = Inr ''first''"
    by (simp add: example_files_def entry_def)
  have "readFileSync ?w1 (?s1 ! 1) = Inr (the (content (example_files ! 1)))"
    using later1 by (intro r1) (auto simp: len)
  then have b: "readFileSync ?w1 ''out/ui/b.txt'' = Inr ''second''"
    by (simp add: example_files_def entry_def)
  have "readFileSync ?w2 (?s2 ! 1) = Inr (the (content (repeated_files ! 1)))"
    using later2 by (intro r2) (auto simp: len)
  then have c: "readFileSync ?w2 ''out/a.txt'' = Inr ''second''"
    by (simp add: repeated_files_def entry_def)
  from h0 h2 h3 n a b c show ?thesis by simp
qed

lemma writeFileSync_read_back:
  assumes "writeFileSync w p c = Inr w1"
  shows "readFileSync w1 p = Inr c"
proof -
  from writeFileSync_effect [OF assms]
  have "node_at (fs w1) (resolve (cwd w1) p) = Some (File c)" and "\<not> endsWith p ''/''"
    by (simp_all add: node_at_def)
  then show ?thesis by (rule readFileSync_file)
qed

lemma writeFileSync_elsewhere:
  "writeFileSync w p c = Inr w1 \<Longrightarrow> k \<noteq> resolve (cwd w) p \<Longrightarrow> fs w1 k = fs w k"
  by (drule writeFileSync_effect) simp

lemma createIndexFile_cases:
  "createIndexFile dir saved w =
     (if filter is_component saved = [] then w
      else (case writeFileSync w (path_join [dir, ''index.js'']) (manifest_text saved) of
              Inl e \<Rightarrow> w | Inr w1 \<Rightarrow> w1))"
  by (simp add: createIndexFile_def manifest_text_def Let_def)

text \<open>
  C7, amended: the component files are the written paths that end in \<^verbatim>\<open>.jsx\<close> or
  \<^verbatim>\<open>.tsx\<close>, or that end in \<^verbatim>\<open>.js\<close> and do not contain \<^verbatim>\<open>index\<close> anywhere. After the
  write loop, if there is at least one, one file \<^verbatim>\<open>index.js\<close> is written in the output
  directory, with one export line per component file, by its base name; nothing else
  changes. If that write throws, or there is no component file, the world stays as the
  write loop left it. In every case \<^verbatim>\<open>downloadGeneratedCode\<close> returns the written paths.
  In the enforced creator the same step is followed by the backend integration, and the
  written paths are returned as well.
\<close>

theorem manifest_generation:
  assumes "fetch_and_save remote chatId dir w = (Inr saved, w1)"
  shows "fst (downloadGeneratedCode remote chatId dir w) = Inr saved \<and>
         (\<forall>k. k \<noteq> resolve (cwd w1) (path_join [dir, ''index.js'']) \<longrightarrow>
            fs (snd (downloadGeneratedCode remote chatId dir w)) k = fs w1 k) \<and>
         (filter is_component saved = [] \<longrightarrow> snd (downloadGeneratedCode remote chatId dir w) = w1) \<and>
         (filter is_component saved \<noteq> [] \<longrightarrow>
            (\<forall>w2. writeFileSync w1 (path_join [dir, ''index.js'']) (manifest_text saved) = Inr w2 \<longrightarrow>
               snd (downloadGeneratedCode remote chatId dir w) = w2 \<and>
               readFileSync w2 (path_join [dir, ''index.js'']) = Inr (manifest_text saved)) \<and>
            (\<forall>e. writeFileSync w1 (path_join [dir, ''index.js'']) (manifest_text saved) = Inl e \<longrightarrow>
               snd (downloadGeneratedCode remote chatId dir w) = w1)) \<and>
         fst (downloadGeneratedCode_enforced tpl remote chatId dir w) = Inr saved \<and>
         (saved \<noteq> [] \<longrightarrow>
            snd (downloadGeneratedCode_enforced tpl remote chatId dir w) =
            ensureBackendIntegration tpl saved dir (snd (downloadGeneratedCode remote chatId dir w)))"
proof -
  let ?ix = "path_join [dir, ''index.js'']"
  have d: "downloadGeneratedCode remote chatId dir w = (Inr saved, createIndexFile dir saved w1)"
    using assms by (cases "saved = []") (simp_all add: downloadGeneratedCode_def createIndexFile_cases)
  have frame: "fs (createIndexFile dir saved w1) k = fs w1 k" if "k \<noteq> resolve (cwd w1) ?ix" for k
    using that
    by (auto simp: createIndexFile_cases split: sum.splits dest: writeFileSync_elsewhere)
  have ok: "createIndexFile dir saved w1 = w2 \<and> readFileSync w2 ?ix = Inr (manifest_text saved)"
    if "filter is_component saved \<noteq> []" "writeFileSync w1 ?ix (manifest_text saved) = Inr w2" for w2
    using that by (simp add: createIndexFile_cases writeFileSync_read_back)
  have fail: "createIndexFile dir saved w1 = w1"
    if "writeFileSync w1 ?ix (manifest_text saved) = Inl e" for e
    using that by (simp add: createIndexFile_cases)
  have none: "createIndexFile dir saved w1 = w1" if "filter is_component saved = []"
    using that by (simp add: createIndexFile_cases)
  have enf: "fst (downloadGeneratedCode_enforced tpl remote chatId dir w) = Inr saved"
    "saved \<noteq> [] \<Longrightarrow> snd (downloadGeneratedCode_enforced tpl remote chatId dir w) =
       ensureBackendIntegration tpl saved dir (createIndexFile dir saved w1)"
    using assms by (simp_all add: downloadGeneratedCode_enforced_def)
  from d frame ok fail none enf show ?thesis by simp
qed

lemma thrownD: "thrown r = Some e \<Longrightarrow> r = Inl e"
  by (cases r) (simp_all add: thrown_def)

text \<open>
  C7, as stated, fails: \<^verbatim>\<open>reindex.js\<close> ends in a component extension and is not named
  \<^verbatim>\<open>index\<close>, yet no manifest is written, because the path contains \<^verbatim>\<open>index\<close>.
\<close>

theorem manifest_counterexample:
  "fst (downloadGeneratedCode remote_reindex ''abc123'' ''./out'' example_world) = Inr [''out/reindex.js''] \<and>
   endsWith ''out/reindex.js'' ''.js'' \<and>
   path_basename ''out/reindex.js'' (path_extname ''out/reindex.js'') = ''reindex'' \<and>
   readFileSync (snd (downloadGeneratedCode remote_reindex ''abc123'' ''./out'' example_world))
     ''out/reindex.js'' = Inr ''export default function reindex(){}'' \<and>
   readFileSync (snd (downloadGeneratedCode remote_reindex ''abc123'' ''./out'' example_world))
     ''out/index.js'' = Inl (Err ''ENOENT'')"
  by code_simp

text \<open>
  The scenario of the specification (\<^verbatim>\<open>Button.tsx\<close> into \<^verbatim>\<open>./out\<close>), and a chat whose
  file makes \<^verbatim>\<open>out/index.js\<close> a directory, so that the manifest cannot be written;
  the same two chats in the enforced creator.
\<close>

theorem manifest_generation_witness:
  "fst (downloadGeneratedCode remote_button ''abc123'' ''./out'' example_world) = Inr [''out/Button.tsx''] \<and>
   filter is_component [''out/Button.tsx''] \<noteq> [] \<and>
   manifest_text [''out/Button.tsx''] =
     ''export { default as Button } from '' @ [CHR 0x27] @ ''./Button'' @ [CHR 0x27] @ '';'' @ [CHR 0x0A] \<and>
   readFileSync (snd (downloadGeneratedCode remote_button ''abc123'' ''./out'' example_world))
     ''out/index.js'' = Inr (manifest_text [''out/Button.tsx'']) \<and>
   fst (downloadGeneratedCode remote_index_dir ''abc123'' ''./out'' example_world)
     = Inr [''out/index.js/Button.tsx''] \<and>
   filter is_component [''out/index.js/Button.tsx''] \<noteq> [] \<and>
   writeFileSync (snd (fetch_and_save remote_index_dir ''abc123'' ''./out'' example_world))
     (path_join [''./out'', ''index.js'']) (manifest_text [''out/index.js/Button.tsx''])
     = Inl (Err ''EISDIR'') \<and>
   snd (downloadGeneratedCode remote_index_dir ''abc123'' ''./out'' example_world)
     = snd (fetch_and_save remote_index_dir ''abc123'' ''./out'' example_world) \<and>
   fst (downloadGeneratedCode_enforced example_templates remote_index_dir ''abc123'' ''./out''
          example_world) = Inr [''out/index.js/Button.tsx''] \<and>
   snd (downloadGeneratedCode_enforced example_templates remote_button ''abc123'' ''./out''
          example_world) =
   ensureBackendIntegration example_templates [''out/Button.tsx''] ''./out''
     (snd (downloadGeneratedCode remote_button ''abc123'' ''./out'' example_world))"
proof -
  let ?wb = "snd (fetch_and_save remote_button ''abc123'' ''./out'' example_world)"
  let ?wi = "snd (fetch_and_save remote_index_dir ''abc123'' ''./out'' example_world)"
  have fb: "fst (fetch_and_save remote_button ''abc123'' ''./out'' example_world) = Inr [''out/Button.tsx'']"
    by code_simp
  then have fb': "fetch_and_save remote_button ''abc123'' ''./out'' example_world
      = (Inr [''out/Button.tsx''], ?wb)"
    by (metis prod.collapse)
  have fi: "fst (fetch_and_save remote_index_dir ''abc123'' ''./out'' example_world)
      = Inr [''out/index.js/Button.tsx'']"
    by code_simp
  then have fi': "fetch_and_save remote_index_dir ''abc123'' ''./out'' example_world
      = (Inr [''out/index.js/Button.tsx''], ?wi)"
    by (metis prod.collapse)
  have cb: "filter is_component [''out/Button.tsx''] \<noteq> []" by code_simp
  have ci: "filter is_component [''out/index.js/Button.tsx''] \<noteq> []" by code_simp
  have mt: "manifest_text [''out/Button.tsx''] =
     ''export { default as Button } from '' @ [CHR 0x27] @ ''./Button'' @ [CHR 0x27] @ '';'' @ [CHR 0x0A]"
    by code_simp
  have ix: "path_join [''./out'', ''index.js''] = ''out/index.js''" by code_simp
  have wb: "\<exists>w2. writeFileSync ?wb (path_join [''./out'', ''index.js''])
      (manifest_text [''out/Button.tsx'']) = Inr w2"
  proof -
    have "\<not> isl (writeFileSync ?wb (path_join [''./out'', ''index.js''])
      (manifest_text [''out/Button.tsx'']))"
      by code_simp
    then show ?thesis
      by (cases "writeFileSync ?wb (path_join [''./out'', ''index.js''])
      (manifest_text [''out/Button.tsx''])") simp_all
  qed
  have "thrown (writeFileSync ?wi (path_join [''./out'', ''index.js''])
      (manifest_text [''out/index.js/Button.tsx''])) = Some (Err ''EISDIR'')"
    by code_simp
  then have wi: "writeFileSync ?wi (path_join [''./out'', ''index.js''])
      (manifest_text [''out/index.js/Button.tsx'']) = Inl (Err ''EISDIR'')"
    by (rule thrownD)
  from manifest_generation [OF fb', of example_templates] cb wb ix
  have b: "fst (downloadGeneratedCode remote_button ''abc123'' ''./out'' example_world) = Inr [''out/Button.tsx'']"
    "readFileSync (snd (downloadGeneratedCode remote_button ''abc123'' ''./out'' example_world))
     ''out/index.js'' = Inr (manifest_text [''out/Button.tsx''])"
    "snd (downloadGeneratedCode_enforced example_templates remote_button ''abc123'' ''./out''
          example_world) =
     ensureBackendIntegration example_templates [''out/Button.tsx''] ''./out''
       (snd (downloadGeneratedCode remote_button ''abc123'' ''./out'' example_world))"
    by auto
  from manifest_generation [OF fi', of example_templates] ci wi
  have i: "fst (downloadGeneratedCode remote_index_dir ''abc123'' ''./out'' example_world)
     = Inr [''out/index.js/Button.tsx'']"
    "snd (downloadGeneratedCode remote_index_dir ''abc123'' ''./out'' example_world) = ?wi"
    "fst (downloadGeneratedCode_enforced example_templates remote_index_dir ''abc123'' ''./out''
          example_world) = Inr [''out/index.js/Button.tsx'']"
    by auto
  from b i cb ci mt wi show ?thesis by blast
qed

lemma apply_fix_no_match: "\<not> str_includes c (fst fix) \<Longrightarrow> apply_fix (c, m) fix = (c, m)"
  by (simp add: apply_fix_def)

lemma foldl_apply_fix_no_match:
  "\<forall>fix\<in>set table. \<not> str_includes c (fst fix) \<Longrightarrow> foldl apply_fix (c, m) table = (c, m)"
  by (induction table) (simp_all add: apply_fix_no_match)

lemma fix_content_modified:
  assumes "snd (fix_content c)"
  shows "\<exists>fix\<in>set importFixes. str_includes c (fst fix)"
proof (rule ccontr)
  assume "\<not> (\<exists>fix\<in>set importFixes. str_includes c (fst fix))"
  then have "\<forall>fix\<in>set importFixes. \<not> str_includes c (fst fix)" by blast
  then have "fix_content c = (c, False)"
    unfolding fix_content_def by (rule foldl_apply_fix_no_match)
  with assms show False by simp
qed

lemma readFileSync_node:
  "readFileSync w p = Inr c \<Longrightarrow> fs w (resolve (cwd w) p) = Some (File c)"
  by (auto simp: readFileSync_def node_at_def split: option.splits node.splits if_splits)

text \<open>A location that \<open>fix_file\<close> changes held a TypeScript file with a match.\<close>

lemma fix_file_changes:
  assumes "fix_file p w = Inr w1" and "fs w1 k \<noteq> fs w k"
  shows "cwd w1 = cwd w \<and> is_ts p \<and> resolve (cwd w) p = k \<and>
         (\<exists>c. fs w k = Some (File c) \<and> (\<exists>fix\<in>set importFixes. str_includes c (fst fix)))"
proof -
  from assms have ts: "is_ts p" by (auto simp: fix_file_def split: if_splits)
  from assms ts obtain c where rd: "readFileSync w p = Inr c"
    by (cases "readFileSync w p") (simp_all add: fix_file_def)
  from assms ts rd have md: "snd (fix_content c)"
    and wr: "writeFileSync w p (fst (fix_content c)) = Inr w1"
    by (auto simp: fix_file_def split: if_splits)
  from wr assms(2) have k: "resolve (cwd w) p = k"
    using writeFileSync_elsewhere [OF wr, of k] by auto
  from writeFileSync_effect [OF wr] have "cwd w1 = cwd w" by simp
  moreover from rd k have "fs w k = Some (File c)" by (auto dest: readFileSync_node)
  moreover from md have "\<exists>fix\<in>set importFixes. str_includes c (fst fix)"
    by (rule fix_content_modified)
  ultimately show ?thesis using ts k by blast
qed

lemma fix_file_cwd: "fix_file p w = Inr w1 \<Longrightarrow> cwd w1 = cwd w"
  by (drule fix_file_only_fs) (simp add: only_fs_changed_def)

lemma fixImportPaths_changes:
  assumes "fs (snd (fixImportPaths files dir w)) k \<noteq> fs w k"
  shows "\<exists>p\<in>set files. is_ts p \<and> resolve (cwd w) p = k \<and>
           (\<exists>c. fs w k = Some (File c) \<and> (\<exists>fix\<in>set importFixes. str_includes c (fst fix)))"
  using assms
proof (induction files arbitrary: w)
  case Nil
  then show ?case by simp
next
  case (Cons p ps)
  show ?case
  proof (cases "fix_file p w")
    case (Inl e)
    with Cons.prems show ?thesis by simp
  next
    case (Inr w1)
    show ?thesis
    proof (cases "fs w1 k = fs w k")
      case False
      from fix_file_changes [OF Inr False] show ?thesis by auto
    next
      case True
      with Cons.prems Inr have "fs (snd (fixImportPaths ps dir w1)) k \<noteq> fs w1 k" by simp
      from Cons.IH [OF this] True fix_file_cwd [OF Inr] show ?thesis by auto
    qed
  qed
qed

lemma fixImportPaths_append:
  "fixImportPaths (xs @ ys) dir w =
     (case fixImportPaths xs dir w of
        (Inl e, w1) \<Rightarrow> (Inl e, w1)
      | (Inr u, w1) \<Rightarrow> fixImportPaths ys dir w1)"
  by (induction xs arbitrary: w) (simp_all split: sum.splits)

text \<open>
  C9, amended: \<^verbatim>\<open>fixImportPaths\<close> changes a location only if it held a TypeScript file
  of the list whose text contains one of the mapped import strings; every other file
  stays as it was. A failure while processing one file ends \<^verbatim>\<open>fixImportPaths\<close>: the
  files after it in the list are not processed. The failure does not reach the caller of
  the download, which returns the written paths.
\<close>

theorem import_fix_only_matching_files:
  "(\<forall>k. fs (snd (fixImportPaths files dir w)) k \<noteq> fs w k \<longrightarrow>
      (\<exists>p\<in>set files. is_ts p \<and> resolve (cwd w) p = k \<and>
         (\<exists>c. fs w k = Some (File c) \<and> (\<exists>fix\<in>set importFixes. str_includes c (fst fix))))) \<and>
   (\<forall>w1 e. fixImportPaths xs dir w = (Inr (), w1) \<and> fix_file p w1 = Inl e \<longrightarrow>
      fixImportPaths (xs @ p # ys) dir w = (Inl e, w1)) \<and>
   (\<forall>saved w1. fetch_and_save remote chatId dir w = (Inr saved, w1) \<longrightarrow>
      fst (downloadGeneratedCode_enforced tpl remote chatId dir w) = Inr saved)"
proof (intro conjI allI impI)
  fix k
  assume "fs (snd (fixImportPaths files dir w)) k \<noteq> fs w k"
  then show "\<exists>p\<in>set files. is_ts p \<and> resolve (cwd w) p = k \<and>
         (\<exists>c. fs w k = Some (File c) \<and> (\<exists>fix\<in>set importFixes. str_includes c (fst fix)))"
    by (rule fixImportPaths_changes)
next
  fix w1 e
  assume "fixImportPaths xs dir w = (Inr (), w1) \<and> fix_file p w1 = Inl e"
  then show "fixImportPaths (xs @ p # ys) dir w = (Inl e, w1)"
    by (simp add: fixImportPaths_append)
next
  fix saved w1
  assume "fetch_and_save remote chatId dir w = (Inr saved, w1)"
  then show "fst (downloadGeneratedCode_enforced tpl remote chatId dir w) = Inr saved"
    by (simp add: downloadGeneratedCode_enforced_def)
qed

text \<open>
  C9, as stated, fails: the first path cannot be read, and the second file, which contains
  a mapped import string, is left as it was. Alone in the list it is rewritten.
\<close>

theorem import_fix_counterexample:
  "thrown (fst (fixImportPaths [''out/missing.ts'', ''out/b.ts''] ''out'' world_with_sources))
     = Some (Err ''ENOENT'') \<and>
   str_includes ''import { db } from \"lib/db\"'' ''from \"lib/'' \<and>
   readFileSync (snd (fixImportPaths [''out/missing.ts'', ''out/b.ts''] ''out'' world_with_sources))
     ''out/b.ts'' = Inr ''import { db } from \"lib/db\"'' \<and>
   readFileSync (snd (fixImportPaths [''out/b.ts''] ''out'' world_with_sources))
     ''out/b.ts'' = Inr ''import { db } from \"@/lib/db\"''"
  by code_simp

text \<open>
  A file with a mapped import is rewritten and one without is not; an unreadable file ends
  the loop; the download of \<^verbatim>\<open>Button.tsx\<close> returns its path.
\<close>

theorem import_fix_only_matching_files_witness:
  "fs (snd (fixImportPaths [''out/b.ts'', ''out/c.ts''] ''out'' world_with_sources)) [''w'', ''out'', ''b.ts'']
     \<noteq> fs world_with_sources [''w'', ''out'', ''b.ts''] \<and>
   (\<exists>p\<in>set [''out/b.ts'', ''out/c.ts'']. is_ts p \<and>
       resolve (cwd world_with_sources) p = [''w'', ''out'', ''b.ts''] \<and>
       (\<exists>c. fs world_with_sources [''w'', ''out'', ''b.ts''] = Some (File c) \<and>
            (\<exists>fix\<in>set importFixes. str_includes c (fst fix)))) \<and>
   fs (snd (fixImportPaths [''out/b.ts'', ''out/c.ts''] ''out'' world_with_sources)) [''w'', ''out'', ''c.ts'']
     = fs world_with_sources [''w'', ''out'', ''c.ts''] \<and>
   fix_file ''out/missing.ts'' world_with_sources = Inl (Err ''ENOENT'') \<and>
   fixImportPaths ([] @ ''out/missing.ts'' # [''out/b.ts'']) ''out'' world_with_sources
     = (Inl (Err ''ENOENT''), world_with_sources) \<and>
   fst (fetch_and_save remote_button ''abc123'' ''./out'' example_world) = Inr [''out/Button.tsx''] \<and>
   fst (downloadGeneratedCode_enforced example_templates remote_button ''abc123'' ''./out'' example_world)
     = Inr [''out/Button.tsx'']"
proof -
  note t = import_fix_only_matching_files
    [where files = "[''out/b.ts'', ''out/c.ts'']" and dir = "''out''" and w = world_with_sources
       and xs = "[]" and p = "''out/missing.ts''" and ys = "[''out/b.ts'']"]
  note u = import_fix_only_matching_files
    [where dir = "''./out''" and w = example_world and remote = remote_button
       and chatId = "''abc123''" and tpl = example_templates]
  have h1: "fs (snd (fixImportPaths [''out/b.ts'', ''out/c.ts''] ''out'' world_with_sources))
      [''w'', ''out'', ''b.ts''] \<noteq> fs world_with_sources [''w'', ''out'', ''b.ts'']"
    by code_simp
  have h2: "fs (snd (fixImportPaths [''out/b.ts'', ''out/c.ts''] ''out'' world_with_sources))
      [''w'', ''out'', ''c.ts''] = fs world_with_sources [''w'', ''out'', ''c.ts'']"
    by code_simp
  have "thrown (fix_file ''out/missing.ts'' world_with_sources) = Some (Err ''ENOENT'')"
    by code_simp
  then have h3: "fix_file ''out/missing.ts'' world_with_sources = Inl (Err ''ENOENT'')"
    by (rule thrownD)
  have h4: "fixImportPaths [] ''out'' world_with_sources = (Inr (), world_with_sources)"
    by simp
  have h5: "fst (fetch_and_save remote_button ''abc123'' ''./out'' example_world) = Inr [''out/Button.tsx'']"
    by code_simp
  then have h5': "fetch_and_save remote_button ''abc123'' ''./out'' example_world
      = (Inr [''out/Button.tsx''], snd (fetch_and_save remote_button ''abc123'' ''./out'' example_world))"
    by (metis prod.collapse)
  from t h1 have c1: "\<exists>p\<in>set [''out/b.ts'', ''out/c.ts'']. is_ts p \<and>
       resolve (cwd world_with_sources) p = [''w'', ''out'', ''b.ts''] \<and>
       (\<exists>c. fs world_with_sources [''w'', ''out'', ''b.ts''] = Some (File c) \<and>
            (\<exists>fix\<in>set importFixes. str_includes c (fst fix)))"
    by blast
  from t h3 h4 have c2: "fixImportPaths ([] @ ''out/missing.ts'' # [''out/b.ts'']) ''out'' world_with_sources
     = (Inl (Err ''ENOENT''), world_with_sources)"
    by blast
  from u h5' have c3: "fst (downloadGeneratedCode_enforced example_templates remote_button ''abc123''
      ''./out'' example_world) = Inr [''out/Button.tsx'']"
    by blast
  from h1 c1 h2 h3 c2 h5 c3 show ?thesis by blast
qed

lemma first_productive_unproductive:
  "\<not> productive (fst (s w)) \<Longrightarrow> first_productive (s # stages) w = first_productive stages (snd (s w))"
  by (cases "s w") (auto simp: productive_def split: sum.splits)

lemma first_productive_productive:
  "productive (fst (s w)) \<Longrightarrow> Inr (fst (first_productive (s # stages) w)) = fst (s w) \<and>
     snd (first_productive (s # stages) w) = snd (s w)"
  by (cases "s w") (auto simp: productive_def split: sum.splits)

lemma stage_result_Suc:
  "stage_result (s # stages) (Suc i) w = stage_result stages i (snd (s w))"
  by (simp add: stage_result_def)

lemma stage_result_0: "stage_result (s # stages) 0 w = s w"
  by (simp add: stage_result_def)

lemma first_productive_stops:
  "one_call_each stages \<Longrightarrow> stops_at_first_productive stages w (first_productive stages w)"
proof (induction stages arbitrary: w)
  case Nil
  show ?case by (simp add: stops_at_first_productive_def)
next
  case (Cons s stages)
  from Cons.prems have c1: "calls (snd (s w)) = calls w + 1" and rest: "one_call_each stages"
    by (simp_all add: one_call_each_def)
  note ih = Cons.IH [OF rest, of "snd (s w)", unfolded stops_at_first_productive_def]
  show ?case
  proof (cases "productive (fst (s w))")
    case True
    have "fst (stage_result (s # stages) i w) = Inr (fst (first_productive (s # stages) w)) \<and>
          snd (first_productive (s # stages) w) = snd (stage_result (s # stages) i w) \<and>
          calls (snd (first_productive (s # stages) w)) = calls w + i + 1"
      if "\<forall>j<i. \<not> productive (fst (stage_result (s # stages) j w))" for i
    proof -
      from that True have "i = 0" by (cases i) (auto simp: stage_result_0)
      with first_productive_productive [of s w stages] True c1 show ?thesis
        by (simp add: stage_result_0)
    qed
    moreover have "\<not> (\<forall>j<length (s # stages). \<not> productive (fst (stage_result (s # stages) j w)))"
      using True by (auto simp: stage_result_0 intro!: exI [of _ 0])
    ultimately show ?thesis unfolding stops_at_first_productive_def by blast
  next
    case False
    then have fp: "first_productive (s # stages) w = first_productive stages (snd (s w))"
      by (rule first_productive_unproductive)
    have a: "fst (stage_result (s # stages) i w) = Inr (fst (first_productive (s # stages) w)) \<and>
          snd (first_productive (s # stages) w) = snd (stage_result (s # stages) i w) \<and>
          calls (snd (first_productive (s # stages) w)) = calls w + i + 1"
      if i: "i < length (s # stages)"
        and np: "\<forall>j<i. \<not> productive (fst (stage_result (s # stages) j w))"
        and p: "productive (fst (stage_result (s # stages) i w))" for i
    proof (cases i)
      case 0
      with p False show ?thesis by (simp add: stage_result_0)
    next
      case (Suc n)
      from i Suc have n: "n < length stages" by simp
      from np Suc have np': "\<forall>j<n. \<not> productive (fst (stage_result stages j (snd (s w))))"
        by (auto simp: stage_result_Suc [symmetric])
      from p Suc have p': "productive (fst (stage_result stages n (snd (s w))))"
        by (simp add: stage_result_Suc)
      from ih n np' p'
      have r: "fst (stage_result stages n (snd (s w))) = Inr (fst (first_productive stages (snd (s w))))"
        "snd (first_productive stages (snd (s w))) = snd (stage_result stages n (snd (s w)))"
        "calls (snd (first_productive stages (snd (s w)))) = calls (snd (s w)) + n + 1"
        by blast+
      show ?thesis unfolding fp Suc stage_result_Suc using r c1 by simp
    qed
    have b: "fst (first_productive (s # stages) w) = [] \<and>
          snd (first_productive (s # stages) w) = world_before (s # stages) (length (s # stages)) w \<and>
          calls (snd (first_productive (s # stages) w)) = calls w + length (s # stages)"
      if np: "\<forall>j<length (s # stages). \<not> productive (fst (stage_result (s # stages) j w))"
    proof -
      from np have "\<forall>j<length stages. \<not> productive (fst (stage_result stages j (snd (s w))))"
        by (auto simp: stage_result_Suc [symmetric])
      with ih
      have r: "fst (first_productive stages (snd (s w))) = []"
        "snd (first_productive stages (snd (s w))) = world_before stages (length stages) (snd (s w))"
        "calls (snd (first_productive stages (snd (s w)))) = calls (snd (s w)) + length stages"
        by blast+
      show ?thesis unfolding fp using r c1 by simp
    qed
    from a b show ?thesis unfolding stops_at_first_productive_def by blast
  qed
qed

lemma final_attempts_first_productive:
  "final_attempts tpl remote chatId dir ds w
     = first_productive (map (run_strategy tpl remote chatId dir) ds) w"
  by (induction ds arbitrary: w) (simp_all split: prod.splits sum.splits)

lemma aggressive_retries_first_productive:
  "aggressive_retries tpl remote chatId dir retry w
     = first_productive
         (map (\<lambda>retry w. downloadGeneratedCode_enforced tpl remote chatId dir
                            (sleep (10000 + retry * 5000) w)) [retry..<6]) w"
proof (induction tpl remote chatId dir retry w rule: aggressive_retries.induct)
  case (1 tpl remote chatId dir retry w)
  show ?case
  proof (cases "retry \<le> 5")
    case False
    then show ?thesis by (subst aggressive_retries.simps) simp
  next
    case True
    then have u: "[retry..<6] = retry # [retry + 1..<6]" by (simp add: upt_rec)
    show ?thesis
      using True "1.IH"
      by (subst aggressive_retries.simps)
         (auto simp: u simp del: aggressive_retries.simps split: prod.splits sum.splits)
  qed
qed

lemma sleep_calls: "calls (sleep ms w) = calls w"
  by (simp add: sleep_def)

lemma download_enforced_calls:
  "calls (snd (downloadGeneratedCode_enforced tpl remote chatId dir w)) = calls w + 1"
  using downloadGeneratedCode_enforced_one_call [of w tpl remote chatId dir]
  by (simp add: one_call_made_def)

lemma final_stages_one_call: "one_call_each (final_stages tpl remote chatId dir)"
  by (auto simp: one_call_each_def final_stages_def strategies_def run_strategy_def
      download_enforced_calls sleep_calls)

lemma retry_stages_one_call: "one_call_each (retry_stages tpl remote chatId dir)"
  by (auto simp: one_call_each_def retry_stages_def download_enforced_calls sleep_calls)

text \<open>
  C6: the three final strategies of \<^verbatim>\<open>waitAndDownloadEnforced\<close> and the five retries of
  \<^verbatim>\<open>createAndDownload\<close> stop at the first stage that returns a file list that is not
  empty: that list is the result, in the world that stage left, and the number of remote
  calls made shows that no later stage ran. A stage that throws or returns no file leads
  to the next one, and when no stage is productive the result is the empty list, returned
  after every stage has run.
\<close>

theorem staged_retry_stops_at_first_files:
  "stops_at_first_productive (final_stages tpl remote chatId dir) w
     (final_attempts tpl remote chatId dir strategies w) \<and>
   stops_at_first_productive (retry_stages tpl remote chatId dir) w
     (aggressive_retries tpl remote chatId dir 1 w)"
proof -
  have a: "final_attempts tpl remote chatId dir strategies w
      = first_productive (final_stages tpl remote chatId dir) w"
    unfolding final_stages_def by (rule final_attempts_first_productive)
  have b: "aggressive_retries tpl remote chatId dir 1 w
      = first_productive (retry_stages tpl remote chatId dir) w"
    unfolding retry_stages_def by (rule aggressive_retries_first_productive)
  show ?thesis
    unfolding a b
    using first_productive_stops [OF final_stages_one_call, of tpl remote chatId dir w]
      first_productive_stops [OF retry_stages_one_call, of tpl remote chatId dir w]
    by blast
qed

lemma download_enforced_remote_error:
  "snd (remote chatId (calls w)) = Inl e
   \<Longrightarrow> fst (downloadGeneratedCode_enforced tpl remote chatId dir w) = Inl e"
  by (simp add: downloadGeneratedCode_enforced_def fetch_and_save_def getChat_def)

text \<open>
  The first strategy throws and the second returns a file: two remote calls are made, not
  three. With a service that never answers, the five retries return the empty list.
\<close>

theorem staged_retry_stops_at_first_files_witness:
  "\<not> productive (fst (stage_result
       (final_stages example_templates remote_second_try ''abc123'' ''./out'') 0 example_world)) \<and>
   fst (stage_result
       (final_stages example_templates remote_second_try ''abc123'' ''./out'') 1 example_world)
     = Inr [''out/Button.tsx''] \<and>
   fst (final_attempts example_templates remote_second_try ''abc123'' ''./out'' strategies example_world)
     = [''out/Button.tsx''] \<and>
   calls (snd (final_attempts example_templates remote_second_try ''abc123'' ''./out'' strategies
                 example_world)) = 2 \<and>
   fst (aggressive_retries example_templates remote_never ''abc123'' ''./out'' 1 example_world) = [] \<and>
   calls (snd (aggressive_retries example_templates remote_never ''abc123'' ''./out'' 1 example_world)) = 5"
proof -
  let ?S = "final_stages example_templates remote_second_try ''abc123'' ''./out''"
  let ?R = "retry_stages example_templates remote_never ''abc123'' ''./out''"
  note t = staged_retry_stops_at_first_files
    [of example_templates remote_second_try "''abc123''" "''./out''" example_world,
      unfolded stops_at_first_productive_def]
  note u = staged_retry_stops_at_first_files
    [of example_templates remote_never "''abc123''" "''./out''" example_world,
      unfolded stops_at_first_productive_def]
  have len: "length ?S = 3" "length ?R = 5"
    by (simp_all add: final_stages_def strategies_def retry_stages_def)
  have s0: "\<not> productive (fst (stage_result ?S 0 example_world))"
    by (simp add: stage_result_def final_stages_def strategies_def run_strategy_def
        download_enforced_remote_error [where e = "Err ''socket hang up''"]
        remote_second_try_def example_world_def productive_def)
  have s1: "fst (stage_result ?S 1 example_world) = Inr [''out/Button.tsx'']"
    by code_simp
  then have p1: "productive (fst (stage_result ?S 1 example_world))"
    by (simp add: productive_def)
  have before: "\<forall>j<1. \<not> productive (fst (stage_result ?S j example_world))"
    using s0 by simp
  from t have "1 < length ?S \<and> (\<forall>j<1. \<not> productive (fst (stage_result ?S j example_world))) \<and>
         productive (fst (stage_result ?S 1 example_world)) \<longrightarrow>
           fst (stage_result ?S 1 example_world) = Inr (fst (final_attempts example_templates
             remote_second_try ''abc123'' ''./out'' strategies example_world)) \<and>
           calls (snd (final_attempts example_templates remote_second_try ''abc123'' ''./out''
             strategies example_world)) = calls example_world + 1 + 1"
    by blast
  with len before p1 s1
  have a: "Inr [''out/Button.tsx''] = (Inr (fst (final_attempts example_templates remote_second_try
        ''abc123'' ''./out'' strategies example_world)) :: error + string list)"
    "calls (snd (final_attempts example_templates remote_second_try ''abc123'' ''./out'' strategies
        example_world)) = calls example_world + 1 + 1"
    by simp_all
  have never: "\<forall>j<length ?R. \<not> productive (fst (stage_result ?R j example_world))"
    by (simp add: stage_result_def retry_stages_def productive_def
        download_enforced_remote_error [where e = "Err ''socket hang up''"] remote_never_def)
  from u have "(\<forall>j<length ?R. \<not> productive (fst (stage_result ?R j example_world))) \<longrightarrow>
      fst (aggressive_retries example_templates remote_never ''abc123'' ''./out'' 1 example_world) = [] \<and>
      calls (snd (aggressive_retries example_templates remote_never ''abc123'' ''./out'' 1 example_world))
       = calls example_world + length ?R"
    by blast
  with never len
  have b: "fst (aggressive_retries example_templates remote_never ''abc123'' ''./out'' 1 example_world) = []"
    "calls (snd (aggressive_retries example_templates remote_never ''abc123'' ''./out'' 1 example_world))
       = calls example_world + 5"
    by simp_all
  from s0 s1 a b show ?thesis by (simp add: example_world_def)
qed

lemmas wait_eval =
  waitAndDownloadEnforced_def wait_loop.simps poll_iteration_def poll_try_def poll_branch_def
  note_status_def poll_catch_def
  getChat_def sleep_def Let_def current_status_def final_attempts.simps run_strategy_def
  strategies_def downloadGeneratedCode_enforced_def fetch_and_save_def chat_files_def

lemmas wait_eval_sdk =
  waitAndDownload_def wait_loop_sdk.simps poll_iteration_sdk_def poll_try_sdk_def
  poll_catch_sdk_def getChat_def sleep_def Let_def downloadGeneratedCode_def fetch_and_save_def
  chat_files_def

text \<open>
  C5, as stated, fails. In the enforced creator four polls succeed and the fifth throws:
  it is the first failed attempt, not the fifth in a row, and the wait after it is 5
  seconds. In the SDK creator the wait after the first failed attempt is 5 seconds as
  well.
\<close>

theorem backoff_counterexample:
  "trace (snd (waitAndDownloadEnforced example_templates remote_fifth_fails ''abc123'' ''./out'' 12
                 example_world))
     = [StatusUpdate ''unknown'' ''pending'', Sleep 2000, Sleep 2000, Sleep 2000, Sleep 2000,
        CheckError 5 ''socket hang up'', Sleep 5000, Sleep 5000, Sleep 15000] \<and>
   trace (snd (waitAndDownload remote_never ''abc123'' ''./out'' 4 example_world))
     = [CheckError 1 ''socket hang up'', Sleep 5000]"
  by (simp add: wait_eval wait_eval_sdk remote_fifth_fails_def remote_never_def example_world_def)

text \<open>
  C2: the first poll sees \<^verbatim>\<open>failed\<close> and the download it attempts throws. The error
  thrown for it, \<^verbatim>\<open>Generation failed and no files available\<close>, is caught by the
  \<^verbatim>\<open>catch\<close> of the loop: the wait reports it, waits 3 seconds and goes on to the final
  strategies, and returns the empty list instead of raising. \<^verbatim>\<open>waitAndDownload\<close> of
  the SDK creator throws \<^verbatim>\<open>Generation failed\<close> without a download, inside the same
  kind of \<^verbatim>\<open>try\<close>: the error is reported, the loop waits 5 seconds, and the wait ends
  with the final download (the second remote call) and the empty list.
\<close>

theorem failed_status_error_is_swallowed:
  "fst (waitAndDownloadEnforced example_templates remote_failed ''abc123'' ''./out'' 3 example_world) = [] \<and>
   trace (snd (waitAndDownloadEnforced example_templates remote_failed ''abc123'' ''./out'' 3
                 example_world))
     = [StatusUpdate ''unknown'' ''failed'',
        CheckError 1 ''Generation failed and no files available'', Sleep 3000,
        Sleep 5000, Sleep 15000] \<and>
   fst (waitAndDownload remote_failed ''abc123'' ''./out'' 3 example_world) = [] \<and>
   trace (snd (waitAndDownload remote_failed ''abc123'' ''./out'' 3 example_world))
     = [CheckError 1 ''Generation failed'', Sleep 5000] \<and>
   calls (snd (waitAndDownload remote_failed ''abc123'' ''./out'' 3 example_world)) = 2"
  by (simp add: wait_eval wait_eval_sdk remote_failed_def example_world_def)

















lemma wait_loop_deadline:
  "wait_loop tpl remote chatId dir start maxw ps w = (None, ps2, w2)
   \<Longrightarrow> \<not> int (now w2) - int start < int maxw"
proof (induction tpl remote chatId dir start maxw ps w rule: wait_loop.induct)
  case (1 tpl remote chatId dir start maxw ps w)
  show ?case
  proof (cases "int (now w) - int start < int maxw")
    case False
    with "1.prems" show ?thesis by (simp add: wait_loop.simps)
  next
    case True
    obtain st ps1 w1 where p: "poll_iteration tpl remote chatId dir ps w = (st, ps1, w1)"
      by (cases "poll_iteration tpl remote chatId dir ps w")
    show ?thesis
    proof (cases st)
      case (Return files)
      with "1.prems" True p show ?thesis
        by (simp add: wait_loop.simps [of _ _ _ _ _ _ ps w])
    next
      case Next
      with "1.prems" True p
      have "wait_loop tpl remote chatId dir start maxw ps1 w1 = (None, ps2, w2)"
        by (simp add: wait_loop.simps [of _ _ _ _ _ _ ps w])
      with "1.IH" [OF True p [symmetric] Next refl] show ?thesis by blast
    qed
  qed
qed

lemma poll_iteration_Return:
  assumes "poll_iteration tpl remote chatId dir ps w = (Return files, ps1, w1)"
  shows "\<exists>c. snd (remote chatId (calls w)) = Inr c \<and>
             (current_status c = ''completed'' \<or> current_status c = ''failed'')"
  using assms
  by (cases "snd (remote chatId (calls w))")
     (auto simp: poll_iteration_def poll_try_def poll_branch_def getChat_def Let_def
       split: prod.splits sum.splits if_splits)

lemma wait_loop_sdk_deadline:
  "wait_loop_sdk remote chatId dir start maxw n w = (None, n2, w2)
   \<Longrightarrow> \<not> int (now w2) - int start < int maxw"
proof (induction remote chatId dir start maxw n w rule: wait_loop_sdk.induct)
  case (1 remote chatId dir start maxw n w)
  show ?case
  proof (cases "int (now w) - int start < int maxw")
    case False
    with "1.prems" show ?thesis by (simp add: wait_loop_sdk.simps)
  next
    case True
    obtain st n1 w1 where p: "poll_iteration_sdk remote chatId dir n w = (st, n1, w1)"
      by (cases "poll_iteration_sdk remote chatId dir n w")
    show ?thesis
    proof (cases st)
      case (Return files)
      with "1.prems" True p show ?thesis
        by (simp add: wait_loop_sdk.simps [of _ _ _ _ _ n w])
    next
      case Next
      with "1.prems" True p
      have "wait_loop_sdk remote chatId dir start maxw n1 w1 = (None, n2, w2)"
        by (simp add: wait_loop_sdk.simps [of _ _ _ _ _ n w])
      with "1.IH" [OF True p [symmetric] Next refl] show ?thesis by blast
    qed
  qed
qed

lemma poll_iteration_sdk_Return:
  assumes "poll_iteration_sdk remote chatId dir n w = (Return files, n1, w1)"
  shows "\<exists>c. snd (remote chatId (calls w)) = Inr c \<and> lv_status c = Some ''completed''"
  using assms
  by (cases "snd (remote chatId (calls w))")
     (auto simp: poll_iteration_sdk_def poll_try_sdk_def getChat_def
       split: prod.splits sum.splits if_splits)

text \<open>
  C5, amended: a poll that throws does not end the wait. The error is reported with the
  number of the attempt, and polling resumes after 5 seconds when the attempt counter of
  the wait, which counts every poll, is a multiple of 5, and after 3 seconds otherwise.
  The loop is left without a result only once the deadline has passed, and a pass returns
  only after a poll that saw the status \<^verbatim>\<open>completed\<close> or \<^verbatim>\<open>failed\<close>. In
  \<^verbatim>\<open>waitAndDownload\<close> of the SDK creator polling resumes after 5 seconds, whatever the
  attempt; its loop too is left without a result only once the deadline has passed, and a
  pass returns only after a poll that saw \<^verbatim>\<open>completed\<close>.
\<close>

theorem poll_error_backoff:
  "(snd (remote chatId (calls w)) = Inl e \<longrightarrow>
      poll_iteration tpl remote chatId dir ps w =
        (Next, ps\<lparr>attempts := attempts ps + 1\<rparr>,
         w\<lparr>now := now w + fst (remote chatId (calls w))
                    + (if (attempts ps + 1) mod 5 = 0 then 5000 else 3000),
           calls := calls w + 1,
           trace := trace w @ [CheckError (attempts ps + 1) (message e),
                               Sleep (if (attempts ps + 1) mod 5 = 0 then 5000 else 3000)]\<rparr>) \<and>
      (int (now w) - int start < int maxw \<longrightarrow>
         wait_loop tpl remote chatId dir start maxw ps w =
         wait_loop tpl remote chatId dir start maxw (ps\<lparr>attempts := attempts ps + 1\<rparr>)
           (w\<lparr>now := now w + fst (remote chatId (calls w))
                      + (if (attempts ps + 1) mod 5 = 0 then 5000 else 3000),
             calls := calls w + 1,
             trace := trace w @ [CheckError (attempts ps + 1) (message e),
                                 Sleep (if (attempts ps + 1) mod 5 = 0 then 5000 else 3000)]\<rparr>))) \<and>
   (wait_loop tpl remote chatId dir start maxw ps w = (None, ps2, w2) \<longrightarrow>
      \<not> int (now w2) - int start < int maxw) \<and>
   (poll_iteration tpl remote chatId dir ps w = (Return files, ps1, w1) \<longrightarrow>
      (\<exists>c. snd (remote chatId (calls w)) = Inr c \<and>
           (current_status c = ''completed'' \<or> current_status c = ''failed''))) \<and>
   (snd (remote chatId (calls w)) = Inl e \<longrightarrow>
      poll_iteration_sdk remote chatId dir n w =
        (Next, n + 1,
         w\<lparr>now := now w + fst (remote chatId (calls w)) + 5000,
           calls := calls w + 1,
           trace := trace w @ [CheckError (n + 1) (message e), Sleep 5000]\<rparr>)) \<and>
   (wait_loop_sdk remote chatId dir start maxw n w = (None, n2, w2) \<longrightarrow>
      \<not> int (now w2) - int start < int maxw) \<and>
   (poll_iteration_sdk remote chatId dir n w = (Return files, n1, w1) \<longrightarrow>
      (\<exists>c. snd (remote chatId (calls w)) = Inr c \<and> lv_status c = Some ''completed''))"
proof (intro conjI impI)
  assume r: "snd (remote chatId (calls w)) = Inl e"
  then show it: "poll_iteration tpl remote chatId dir ps w =
        (Next, ps\<lparr>attempts := attempts ps + 1\<rparr>,
         w\<lparr>now := now w + fst (remote chatId (calls w))
                    + (if (attempts ps + 1) mod 5 = 0 then 5000 else 3000),
           calls := calls w + 1,
           trace := trace w @ [CheckError (attempts ps + 1) (message e),
                               Sleep (if (attempts ps + 1) mod 5 = 0 then 5000 else 3000)]\<rparr>)"
    by (simp add: poll_iteration_def poll_try_def poll_catch_def getChat_def sleep_def Let_def)
  assume "int (now w) - int start < int maxw"
  then show "wait_loop tpl remote chatId dir start maxw ps w =
         wait_loop tpl remote chatId dir start maxw (ps\<lparr>attempts := attempts ps + 1\<rparr>)
           (w\<lparr>now := now w + fst (remote chatId (calls w))
                      + (if (attempts ps + 1) mod 5 = 0 then 5000 else 3000),
             calls := calls w + 1,
             trace := trace w @ [CheckError (attempts ps + 1) (message e),
                                 Sleep (if (attempts ps + 1) mod 5 = 0 then 5000 else 3000)]\<rparr>)"
    by (subst wait_loop.simps) (simp add: it)
next
  assume "wait_loop tpl remote chatId dir start maxw ps w = (None, ps2, w2)"
  then show "\<not> int (now w2) - int start < int maxw" by (rule wait_loop_deadline)
next
  assume "poll_iteration tpl remote chatId dir ps w = (Return files, ps1, w1)"
  then show "\<exists>c. snd (remote chatId (calls w)) = Inr c \<and>
           (current_status c = ''completed'' \<or> current_status c = ''failed'')"
    by (rule poll_iteration_Return)
next
  assume "snd (remote chatId (calls w)) = Inl e"
  then show "poll_iteration_sdk remote chatId dir n w =
        (Next, n + 1,
         w\<lparr>now := now w + fst (remote chatId (calls w)) + 5000,
           calls := calls w + 1,
           trace := trace w @ [CheckError (n + 1) (message e), Sleep 5000]\<rparr>)"
    by (simp add: poll_iteration_sdk_def poll_try_sdk_def poll_catch_sdk_def getChat_def sleep_def)
next
  assume "wait_loop_sdk remote chatId dir start maxw n w = (None, n2, w2)"
  then show "\<not> int (now w2) - int start < int maxw" by (rule wait_loop_sdk_deadline)
next
  assume "poll_iteration_sdk remote chatId dir n w = (Return files, n1, w1)"
  then show "\<exists>c. snd (remote chatId (calls w)) = Inr c \<and> lv_status c = Some ''completed''"
    by (rule poll_iteration_sdk_Return)
qed

text \<open>
  The fifth attempt and the first attempt of a wait throw; a wait without time left; a
  poll that sees \<^verbatim>\<open>failed\<close> and downloads nothing; then the same for the SDK creator,
  with a poll that sees \<^verbatim>\<open>completed\<close>.
\<close>

theorem poll_error_backoff_witness:
  "snd (remote_fifth_fails ''abc123'' (calls after_four_polls)) = Inl (Err ''socket hang up'') \<and>
   fst (poll_iteration example_templates remote_fifth_fails ''abc123'' ''./out''
          \<lparr>attempts = 4, lastStatus = ''pending''\<rparr> after_four_polls) = Next \<and>
   attempts (fst (snd (poll_iteration example_templates remote_fifth_fails ''abc123'' ''./out''
          \<lparr>attempts = 4, lastStatus = ''pending''\<rparr> after_four_polls))) = 5 \<and>
   trace (snd (snd (poll_iteration example_templates remote_fifth_fails ''abc123'' ''./out''
          \<lparr>attempts = 4, lastStatus = ''pending''\<rparr> after_four_polls)))
     = [CheckError 5 ''socket hang up'', Sleep 5000] \<and>
   now (snd (snd (poll_iteration example_templates remote_fifth_fails ''abc123'' ''./out''
          \<lparr>attempts = 4, lastStatus = ''pending''\<rparr> after_four_polls))) = 13000 \<and>
   snd (remote_never ''abc123'' (calls example_world)) = Inl (Err ''socket hang up'') \<and>
   trace (snd (snd (poll_iteration example_templates remote_never ''abc123'' ''./out''
          \<lparr>attempts = 0, lastStatus = ''unknown''\<rparr> example_world)))
     = [CheckError 1 ''socket hang up'', Sleep 3000] \<and>
   wait_loop example_templates remote_never ''abc123'' ''./out'' 0 0
          \<lparr>attempts = 0, lastStatus = ''unknown''\<rparr> example_world
     = (None, \<lparr>attempts = 0, lastStatus = ''unknown''\<rparr>, example_world) \<and>
   \<not> int (now example_world) - int 0 < int 0 \<and>
   fst (poll_iteration example_templates remote_failed_empty ''abc123'' ''./out''
          \<lparr>attempts = 0, lastStatus = ''unknown''\<rparr> example_world) = Return [] \<and>
   (\<exists>c. snd (remote_failed_empty ''abc123'' (calls example_world)) = Inr c \<and>
        (current_status c = ''completed'' \<or> current_status c = ''failed'')) \<and>
   fst (poll_iteration_sdk remote_never ''abc123'' ''./out'' 0 example_world) = Next \<and>
   fst (snd (poll_iteration_sdk remote_never ''abc123'' ''./out'' 0 example_world)) = 1 \<and>
   trace (snd (snd (poll_iteration_sdk remote_never ''abc123'' ''./out'' 0 example_world)))
     = [CheckError 1 ''socket hang up'', Sleep 5000] \<and>
   wait_loop_sdk remote_never ''abc123'' ''./out'' 0 0 0 example_world
     = (None, 0, example_world) \<and>
   fst (poll_iteration_sdk remote_no_files ''abc123'' ''./out'' 0 example_world) = Return [] \<and>
   (\<exists>c. snd (remote_no_files ''abc123'' (calls example_world)) = Inr c \<and>
        lv_status c = Some ''completed'')"
proof -
  let ?ps4 = "\<lparr>attempts = 4, lastStatus = ''pending''\<rparr>"
  let ?ps0 = "\<lparr>attempts = 0, lastStatus = ''unknown''\<rparr>"
  let ?F = "poll_iteration example_templates remote_failed_empty ''abc123'' ''./out'' ?ps0 example_world"
  have h1: "snd (remote_fifth_fails ''abc123'' (calls after_four_polls)) = Inl (Err ''socket hang up'')"
    by (simp add: remote_fifth_fails_def after_four_polls_def)
  have h2: "snd (remote_never ''abc123'' (calls example_world)) = Inl (Err ''socket hang up'')"
    by (simp add: remote_never_def)
  have h3: "wait_loop example_templates remote_never ''abc123'' ''./out'' 0 0 ?ps0 example_world
     = (None, ?ps0, example_world)"
    by (simp add: wait_loop.simps)
  have h4: "fst ?F = Return []"
    by (simp add: wait_eval remote_failed_empty_def example_world_def)
  then have h4': "?F = (Return [], fst (snd ?F), snd (snd ?F))"
    by (metis prod.collapse)
  from poll_error_backoff
    [of remote_fifth_fails "''abc123''" after_four_polls "Err ''socket hang up''"
      example_templates "''./out''" ?ps4] h1
  have a: "fst (poll_iteration example_templates remote_fifth_fails ''abc123'' ''./out'' ?ps4
                  after_four_polls) = Next"
    "attempts (fst (snd (poll_iteration example_templates remote_fifth_fails ''abc123'' ''./out'' ?ps4
                  after_four_polls))) = 5"
    "trace (snd (snd (poll_iteration example_templates remote_fifth_fails ''abc123'' ''./out'' ?ps4
                  after_four_polls))) = [CheckError 5 ''socket hang up'', Sleep 5000]"
    "now (snd (snd (poll_iteration example_templates remote_fifth_fails ''abc123'' ''./out'' ?ps4
                  after_four_polls))) = 13000"
    by (simp_all add: after_four_polls_def example_world_def remote_fifth_fails_def)
  from poll_error_backoff
    [of remote_never "''abc123''" example_world "Err ''socket hang up''"
      example_templates "''./out''" ?ps0] h2
  have b: "trace (snd (snd (poll_iteration example_templates remote_never ''abc123'' ''./out'' ?ps0
                  example_world))) = [CheckError 1 ''socket hang up'', Sleep 3000]"
    by (simp add: example_world_def)
  from poll_error_backoff
    [of remote_never "''abc123''" example_world _ example_templates "''./out''" ?ps0 0 0
      ?ps0 example_world] h3
  have c: "\<not> int (now example_world) - int 0 < int 0"
    by blast
  from poll_error_backoff
    [of remote_failed_empty "''abc123''" example_world _ example_templates "''./out''" ?ps0 _ _
      _ _ "[]" "fst (snd ?F)" "snd (snd ?F)"] h4'
  have d: "\<exists>c. snd (remote_failed_empty ''abc123'' (calls example_world)) = Inr c \<and>
        (current_status c = ''completed'' \<or> current_status c = ''failed'')"
    by blast
  let ?G = "poll_iteration_sdk remote_no_files ''abc123'' ''./out'' 0 example_world"
  have h5: "wait_loop_sdk remote_never ''abc123'' ''./out'' 0 0 0 example_world
     = (None, 0, example_world)"
    by (simp add: wait_loop_sdk.simps)
  have h6: "fst ?G = Return []"
    by (simp add: wait_eval_sdk remote_no_files_def example_world_def)
  then have h6': "?G = (Return [], fst (snd ?G), snd (snd ?G))"
    by (metis prod.collapse)
  from poll_error_backoff
    [where remote = remote_never and chatId = "''abc123''" and w = example_world
       and e = "Err ''socket hang up''" and dir = "''./out''" and n = 0] h2
  have s1: "fst (poll_iteration_sdk remote_never ''abc123'' ''./out'' 0 example_world) = Next"
    "fst (snd (poll_iteration_sdk remote_never ''abc123'' ''./out'' 0 example_world)) = 1"
    "trace (snd (snd (poll_iteration_sdk remote_never ''abc123'' ''./out'' 0 example_world)))
       = [CheckError 1 ''socket hang up'', Sleep 5000]"
    by (simp_all add: example_world_def)
  from poll_error_backoff
    [where remote = remote_no_files and chatId = "''abc123''" and w = example_world
       and dir = "''./out''" and n = 0 and files = "[]" and ?n1.0 = "fst (snd ?G)"
       and ?w1.0 = "snd (snd ?G)"] h6'
  have s2: "\<exists>c. snd (remote_no_files ''abc123'' (calls example_world)) = Inr c \<and>
        lv_status c = Some ''completed''"
    by blast
  from poll_error_backoff
    [where remote = remote_never and chatId = "''abc123''" and dir = "''./out''" and start = 0
       and maxw = 0 and n = 0 and w = example_world and ?n2.0 = 0 and ?w2.0 = example_world] h5
  have s3: "\<not> int (now example_world) - int 0 < int 0"
    by blast
  from h1 h2 h3 h4 a b c d h5 h6 s1 s2 s3 show ?thesis by blast
qed

end
